theory Spec2Isabelle
  imports Complex_Main "HOL-Library.Monad_Syntax"
begin


section \<open>The quantum photonic gate array of \<^verbatim>\<open>qpga/model.py\<close>\<close>

text \<open>
  The model follows \<^verbatim>\<open>src/qpga/model.py\<close>. Tensors of the source hold
  \<^verbatim>\<open>float64\<close> and \<^verbatim>\<open>complex128\<close> numbers; here they hold
  \<^typ>\<open>real\<close> and \<^typ>\<open>complex\<close> numbers, so the arithmetic is exact and no
  rounding is modelled. A raised exception (a failed \<^verbatim>\<open>assert\<close>, a TensorFlow
  shape or dtype error, a read of an attribute that \<^verbatim>\<open>build\<close> has not yet set) is
  the value \<open>None\<close>.
\<close>

subsection \<open>Dense matrices and batched tensors\<close>

text \<open>
  A dense matrix (a numpy array or a dense TensorFlow tensor of rank two that the layers
  store) is the list of its rows.
\<close>

type_synonym cvec = "complex list"
type_synonym cmat = "complex list list"

definition ncols :: "cmat \<Rightarrow> nat" where
  "ncols M = (case M of [] \<Rightarrow> 0 | r # _ \<Rightarrow> length r)"

definition is_mat :: "nat \<Rightarrow> nat \<Rightarrow> cmat \<Rightarrow> bool" where
  "is_mat r c M \<longleftrightarrow> length M = r \<and> list_all (\<lambda>row. length row = c) M"

text \<open>The row vector \<open>v\<close> times the matrix \<open>M\<close>, and the matrix product.\<close>

definition vec_mat :: "cvec \<Rightarrow> cmat \<Rightarrow> cvec" where
  "vec_mat v M = map (\<lambda>j. sum_list (map (\<lambda>k. v ! k * M ! k ! j) [0..<length M])) [0..<ncols M]"

definition mat_mul :: "cmat \<Rightarrow> cmat \<Rightarrow> cmat" where
  "mat_mul A B = map (\<lambda>r. vec_mat r B) A"

definition identity_mat :: "nat \<Rightarrow> cmat" where
  "identity_mat d = map (\<lambda>i. map (\<lambda>j. if i = j then 1 else 0) [0..<d]) [0..<d]"

text \<open>\<^verbatim>\<open>np.kron\<close> on two matrices: entry \<open>(i * p + k, j * q + l)\<close> of the result is
  \<open>A[i][j] * B[k][l]\<close>, where \<open>B\<close> has \<open>p\<close> rows and \<open>q\<close> columns.\<close>

definition kron_row :: "cvec \<Rightarrow> cvec \<Rightarrow> cvec" where
  "kron_row a b = concat (map (\<lambda>x. map (\<lambda>y. x * y) b) a)"

definition kron :: "cmat \<Rightarrow> cmat \<Rightarrow> cmat" where
  "kron A B = concat (map (\<lambda>a. map (\<lambda>b. kron_row a b) B) A)"

text \<open>The Kronecker product of a list of matrices, in the order of the list.\<close>

fun kron_list :: "cmat list \<Rightarrow> cmat" where
  "kron_list [] = [[1]]"
| "kron_list [m] = m"
| "kron_list (m # ms) = kron m (kron_list ms)"

text \<open>
  A batch of complex states is a tensor of shape \<open>[batch, width]\<close>: the trailing dimension
  and the rows. A batch in the real paired encoding has shape \<open>[batch, 2, width]\<close>: each
  row is the pair of the real parts and the imaginary parts.
\<close>

record ctensor =
  width :: nat
  rows :: "cvec list"

record rtensor =
  rwidth :: nat
  rrows :: "(real list \<times> real list) list"

datatype tensor = Cplx ctensor | Paired rtensor

definition ctensor_ok :: "ctensor \<Rightarrow> bool" where
  "ctensor_ok x \<longleftrightarrow> list_all (\<lambda>r. length r = width x) (rows x)"

definition rtensor_ok :: "rtensor \<Rightarrow> bool" where
  "rtensor_ok x \<longleftrightarrow>
     list_all (\<lambda>r. length (fst r) = rwidth x \<and> length (snd r) = rwidth x) (rrows x)"

fun tensor_ok :: "tensor \<Rightarrow> bool" where
  "tensor_ok (Cplx x) = ctensor_ok x"
| "tensor_ok (Paired x) = rtensor_ok x"

fun last_dim :: "tensor \<Rightarrow> nat" where
  "last_dim (Cplx x) = width x"
| "last_dim (Paired x) = rwidth x"

text \<open>
  \<^verbatim>\<open>keras.backend.dot(x, M)\<close> for a batch \<open>x\<close> and a stored \<^verbatim>\<open>complex128\<close>
  matrix \<open>M\<close>: the matrix product \<open>x \<cdot> M\<close>. TensorFlow raises when \<open>x\<close> is not
  complex or when the trailing dimension of \<open>x\<close> is not the number of rows of \<open>M\<close>.
\<close>

fun dot :: "tensor \<Rightarrow> cmat \<Rightarrow> tensor option" where
  "dot (Cplx x) M =
     (if width x = length M \<and> is_mat (length M) (ncols M) M
      then Some (Cplx \<lparr>width = ncols M, rows = mat_mul (rows x) M\<rparr>)
      else None)"
| "dot (Paired x) M = None"

subsection \<open>Code of the repository outside \<^verbatim>\<open>model.py\<close>\<close>

text \<open>
  \<^verbatim>\<open>model.py\<close> imports four gate constants from \<^verbatim>\<open>qpga.constants\<close>. Their values
  are not part of the file, so every function that reads one takes them as the parameter
  \<open>K\<close>.
\<close>

record constants =
  IDENTITY :: cmat
  CPHASE_MOD :: cmat
  BS_MATRIX :: cmat
  CPHASE :: cmat

text \<open>
  Modelled from the spec: \<^verbatim>\<open>qpga.linalg.tensors\<close>, the Kronecker Composer, is not in
  \<^verbatim>\<open>model.py\<close>. The spec: given an ordered list of square matrices it returns
  their Kronecker product as one dense matrix, in left-to-right order. The spec does not
  say what the empty list gives; \<open>kron_list\<close> gives the neutral element there, and no
  layer of at least one qubit passes the empty list.
\<close>

definition tensors :: "cmat list \<Rightarrow> cmat" where
  "tensors ops = kron_list ops"

text \<open>
  Modelled from the spec: \<^verbatim>\<open>qpga.utils.k_to_tf_complex\<close> and
  \<^verbatim>\<open>qpga.utils.tf_to_k_complex\<close>, the Complex Bridge, are not in \<^verbatim>\<open>model.py\<close>.
  The spec: \<open>real_to_complex\<close> takes \<open>real[..., 2, d]\<close>, the paired real and imaginary
  parts, to \<open>complex[..., d]\<close>, and \<open>complex_to_real\<close> goes back. A tensor of the other
  kind is outside both interfaces.
\<close>

fun k_to_tf_complex :: "tensor \<Rightarrow> tensor option" where
  "k_to_tf_complex (Paired x) =
     Some (Cplx \<lparr>width = rwidth x, rows = map (\<lambda>r. map2 Complex (fst r) (snd r)) (rrows x)\<rparr>)"
| "k_to_tf_complex (Cplx x) = None"

fun tf_to_k_complex :: "tensor \<Rightarrow> tensor option" where
  "tf_to_k_complex (Cplx x) =
     Some (Paired \<lparr>rwidth = width x, rrows = map (\<lambda>r. (map Re r, map Im r)) (rows x)\<rparr>)"
| "tf_to_k_complex (Paired x) = None"

subsection \<open>\<^verbatim>\<open>phase_shifts_to_tensor_product_space\<close>\<close>

text \<open>\<^verbatim>\<open>tf.complex(tf.cos(phi), tf.sin(phi))\<close>, elementwise.\<close>

definition phase_complex :: "real list \<Rightarrow> cvec" where
  "phase_complex phi = map (\<lambda>p. Complex (cos p) (sin p)) phi"

text \<open>\<^verbatim>\<open>tf.linalg.tensor_diag\<close> of a vector: the square matrix with the vector on its
  diagonal and zero elsewhere.\<close>

definition tensor_diag :: "cvec \<Rightarrow> cmat" where
  "tensor_diag u = map (\<lambda>i. map (\<lambda>j. if i = j then u ! i else 0) [0..<length u]) [0..<length u]"

text \<open>
  The function returns a \<^verbatim>\<open>LinearOperatorKronecker\<close>, here the list of its factors.
  Stacking \<^verbatim>\<open>[phi_0_complex, phi_1_complex]\<close> raises when the two vectors differ in
  length, and \<^verbatim>\<open>LinearOperatorKronecker\<close> raises on an empty list of operators.
  \<^verbatim>\<open>to_dense\<close> is the Kronecker product of the factors in their order.
\<close>

definition phase_shifts_to_tensor_product_space :: "real list \<Rightarrow> real list \<Rightarrow> cmat list option" where
  "phase_shifts_to_tensor_product_space phi_0 phi_1 =
     (let phi_0_complex = phase_complex phi_0;
          phi_1_complex = phase_complex phi_1
      in if length phi_0 \<noteq> length phi_1 then None
         else let single_qubit_ops = map (\<lambda>U. tensor_diag U)
                    (map2 (\<lambda>a b. [a, b]) phi_0_complex phi_1_complex)
              in if single_qubit_ops = [] then None else Some single_qubit_ops)"

definition to_dense :: "cmat list \<Rightarrow> cmat" where
  "to_dense ops = kron_list ops"

subsection \<open>\<^verbatim>\<open>SingleQubitOperationLayer\<close>\<close>

text \<open>
  \<^verbatim>\<open>2 ** num_qubits\<close> on Python integers: an integer for an exponent that is not
  negative, the float \<open>1 / 2 ** -num_qubits\<close> otherwise.
\<close>

definition py_pow2 :: "int \<Rightarrow> rat" where
  "py_pow2 n = (if 0 \<le> n then 2 ^ nat n else 1 / 2 ^ nat (- n))"

text \<open>
  The attributes that \<^verbatim>\<open>build\<close> sets: the four trainable weights and the four stored
  matrices.
\<close>

record sq_built =
  alphas :: "real list"
  betas :: "real list"
  thetas :: "real list"
  phis :: "real list"
  input_shifts :: cmat
  theta_shifts :: cmat
  phi_shifts :: cmat
  bs_matrix :: cmat

text \<open>
  \<^verbatim>\<open>build\<close> draws the initial weights from
  \<^verbatim>\<open>tf.random_uniform_initializer\<close>. The model fixes the draws when the layer is
  created: \<open>sq_draws L w k\<close> is the value that entry \<open>k\<close> of weight number \<open>w\<close>
  (0 for alphas, 1 for betas, 2 for thetas, 3 for phis) receives. Any real number is
  allowed, not only those of the interval the initializer draws from.
\<close>

record SingleQubitOperationLayer =
  sq_num_qubits :: int
  sq_output_dim :: rat
  sq_draws :: "nat \<Rightarrow> nat \<Rightarrow> real"
  sq_state :: "sq_built option"

definition SingleQubitOperationLayer_init ::
  "(nat \<Rightarrow> nat \<Rightarrow> real) \<Rightarrow> int \<Rightarrow> SingleQubitOperationLayer" where
  "SingleQubitOperationLayer_init draws n =
     \<lparr>sq_num_qubits = n, sq_output_dim = py_pow2 n, sq_draws = draws, sq_state = None\<rparr>"

text \<open>\<^verbatim>\<open>add_weight\<close> with shape \<^verbatim>\<open>(num_qubits,)\<close>.\<close>

definition add_weight :: "int \<Rightarrow> (nat \<Rightarrow> real) \<Rightarrow> real list option" where
  "add_weight n initializer = (if n < 0 then None else Some (map initializer [0..<nat n]))"

definition zeros_like :: "real list \<Rightarrow> real list" where
  "zeros_like v = map (\<lambda>_. 0) v"

definition SingleQubit_build ::
  "constants \<Rightarrow> SingleQubitOperationLayer \<Rightarrow> nat \<Rightarrow> SingleQubitOperationLayer option" where
  "SingleQubit_build K L input_dim =
     (if of_nat input_dim \<noteq> sq_output_dim L then None
      else do {
        a \<leftarrow> add_weight (sq_num_qubits L) (sq_draws L 0);
        b \<leftarrow> add_weight (sq_num_qubits L) (sq_draws L 1);
        t \<leftarrow> add_weight (sq_num_qubits L) (sq_draws L 2);
        p \<leftarrow> add_weight (sq_num_qubits L) (sq_draws L 3);
        i_ops \<leftarrow> phase_shifts_to_tensor_product_space a b;
        t_ops \<leftarrow> phase_shifts_to_tensor_product_space t (zeros_like t);
        p_ops \<leftarrow> phase_shifts_to_tensor_product_space p (zeros_like p);
        Some (L\<lparr>sq_state := Some
          \<lparr>alphas = a, betas = b, thetas = t, phis = p,
           input_shifts = to_dense i_ops,
           theta_shifts = to_dense t_ops,
           phi_shifts = to_dense p_ops,
           bs_matrix = tensors (replicate (nat (sq_num_qubits L)) (BS_MATRIX K))\<rparr>\<rparr>)
      })"

definition SingleQubit_call :: "SingleQubitOperationLayer \<Rightarrow> tensor \<Rightarrow> tensor option" where
  "SingleQubit_call L x =
     (case sq_state L of
        None \<Rightarrow> None
      | Some s \<Rightarrow> do {
          out \<leftarrow> dot x (input_shifts s);
          out \<leftarrow> dot out (bs_matrix s);
          out \<leftarrow> dot out (theta_shifts s);
          out \<leftarrow> dot out (bs_matrix s);
          out \<leftarrow> dot out (phi_shifts s);
          Some out
        })"

text \<open>
  Applying a layer object to a tensor is Keras' \<^verbatim>\<open>Layer.__call__\<close>: it runs
  \<^verbatim>\<open>build\<close> with the shape of the input the first time the layer is applied, then
  \<^verbatim>\<open>call\<close>. The layer object changes, so the layer is returned with the output.
\<close>

definition SingleQubit_apply ::
  "constants \<Rightarrow> SingleQubitOperationLayer \<Rightarrow> tensor \<Rightarrow> (tensor \<times> SingleQubitOperationLayer) option" where
  "SingleQubit_apply K L x = do {
     L' \<leftarrow> (if sq_state L = None then SingleQubit_build K L (last_dim x) else Some L);
     out \<leftarrow> SingleQubit_call L' x;
     Some (out, L')
   }"

subsection \<open>\<^verbatim>\<open>CPhaseLayer\<close>\<close>

record CPhaseLayer =
  cp_num_qubits :: int
  cp_parity :: int
  cp_use_standard_cphase :: bool
  cp_output_dim :: rat
  transfer_matrix :: "cmat option"

definition CPhaseLayer_init :: "int \<Rightarrow> int \<Rightarrow> bool \<Rightarrow> CPhaseLayer" where
  "CPhaseLayer_init n parity use_standard =
     \<lparr>cp_num_qubits = n, cp_parity = parity, cp_use_standard_cphase = use_standard,
      cp_output_dim = py_pow2 n, transfer_matrix = None\<rparr>"

definition get_cphase_gate :: "constants \<Rightarrow> CPhaseLayer \<Rightarrow> cmat" where
  "get_cphase_gate K L = (if cp_use_standard_cphase L then CPHASE K else CPHASE_MOD K)"

text \<open>The list \<^verbatim>\<open>ops\<close> of \<^verbatim>\<open>build\<close>. A \<^verbatim>\<open>range\<close> of a negative number is
  empty.\<close>

definition cphase_ops :: "constants \<Rightarrow> CPhaseLayer \<Rightarrow> cmat list" where
  "cphase_ops K L =
     (if cp_parity L = 0 then
        (let num_cphase = cp_num_qubits L div 2
         in replicate (nat num_cphase) (get_cphase_gate K L)
            @ (if 2 * num_cphase < cp_num_qubits L then [IDENTITY K] else []))
      else
        (let num_cphase = (cp_num_qubits L - 1) div 2
         in [IDENTITY K]
            @ replicate (nat num_cphase) (get_cphase_gate K L)
            @ (if 2 * num_cphase + 1 < cp_num_qubits L then [IDENTITY K] else [])))"

definition CPhase_build :: "constants \<Rightarrow> CPhaseLayer \<Rightarrow> nat \<Rightarrow> CPhaseLayer option" where
  "CPhase_build K L input_dim =
     (if of_nat input_dim \<noteq> cp_output_dim L then None
      else Some (L\<lparr>transfer_matrix := Some (tensors (cphase_ops K L))\<rparr>))"

definition CPhase_call :: "CPhaseLayer \<Rightarrow> tensor \<Rightarrow> tensor option" where
  "CPhase_call L x = (case transfer_matrix L of None \<Rightarrow> None | Some M \<Rightarrow> dot x M)"

definition CPhase_apply ::
  "constants \<Rightarrow> CPhaseLayer \<Rightarrow> tensor \<Rightarrow> (tensor \<times> CPhaseLayer) option" where
  "CPhase_apply K L x = do {
     L' \<leftarrow> (if transfer_matrix L = None then CPhase_build K L (last_dim x) else Some L);
     out \<leftarrow> CPhase_call L' x;
     Some (out, L')
   }"

subsection \<open>\<^verbatim>\<open>QPGA\<close>\<close>

record QPGA =
  num_qubits :: int
  input_dim :: rat
  depth :: int
  complex_inputs :: bool
  complex_outputs :: bool
  use_standard_cphase :: bool
  input_layer :: SingleQubitOperationLayer
  single_qubit_layers :: "SingleQubitOperationLayer list"
  cphase_layers :: "CPhaseLayer list"

text \<open>
  \<^verbatim>\<open>QPGA.__init__\<close>. \<open>draws 0\<close> are the initial weights of the input layer and
  \<open>draws (Suc i)\<close> those of the single-qubit layer that round \<open>i\<close> of the loop creates.
  The loop runs over \<^verbatim>\<open>range(depth)\<close>, which is empty for a negative depth. No
  statement of the constructor raises.
\<close>

definition QPGA_init ::
  "(nat \<Rightarrow> nat \<Rightarrow> nat \<Rightarrow> real) \<Rightarrow> int \<Rightarrow> int \<Rightarrow> bool \<Rightarrow> bool \<Rightarrow> bool \<Rightarrow> QPGA option" where
  "QPGA_init draws n d c_in c_out use_standard =
     Some \<lparr>num_qubits = n, input_dim = py_pow2 n, depth = d,
           complex_inputs = c_in, complex_outputs = c_out,
           use_standard_cphase = use_standard,
           input_layer = SingleQubitOperationLayer_init (draws 0) n,
           single_qubit_layers =
             map (\<lambda>i. SingleQubitOperationLayer_init (draws (Suc i)) n) [0..<nat d],
           cphase_layers =
             map (\<lambda>i. CPhaseLayer_init n (int i mod 2) use_standard) [0..<nat d]\<rparr>"

text \<open>
  The loop of \<^verbatim>\<open>QPGA.call\<close> over
  \<^verbatim>\<open>zip(self.cphase_layers, self.single_qubit_layers)\<close>: it returns the output and the
  layers as the applications leave them.
\<close>

fun call_loop ::
  "constants \<Rightarrow> (CPhaseLayer \<times> SingleQubitOperationLayer) list \<Rightarrow> tensor \<Rightarrow>
   (tensor \<times> (CPhaseLayer \<times> SingleQubitOperationLayer) list) option" where
  "call_loop K [] x = Some (x, [])"
| "call_loop K ((cphase_layer, single_qubit_layer) # ls) x = do {
     (x, cphase_layer') \<leftarrow> CPhase_apply K cphase_layer x;
     (x, single_qubit_layer') \<leftarrow> SingleQubit_apply K single_qubit_layer x;
     (x, ls') \<leftarrow> call_loop K ls x;
     Some (x, (cphase_layer', single_qubit_layer') # ls')
   }"

text \<open>Writing the layers of the zipped prefix back into the two lists of the circuit.\<close>

definition store_layers ::
  "QPGA \<Rightarrow> SingleQubitOperationLayer \<Rightarrow> (CPhaseLayer \<times> SingleQubitOperationLayer) list \<Rightarrow> QPGA" where
  "store_layers q il ls =
     q\<lparr>input_layer := il,
       cphase_layers := map fst ls @ drop (length ls) (cphase_layers q),
       single_qubit_layers := map snd ls @ drop (length ls) (single_qubit_layers q)\<rparr>"

definition QPGA_call :: "constants \<Rightarrow> QPGA \<Rightarrow> tensor \<Rightarrow> (tensor \<times> QPGA) option" where
  "QPGA_call K q inputs = do {
     x \<leftarrow> (if \<not> complex_inputs q then k_to_tf_complex inputs else Some inputs);
     (x, il) \<leftarrow> SingleQubit_apply K (input_layer q) x;
     (x, ls) \<leftarrow> call_loop K (zip (cphase_layers q) (single_qubit_layers q)) x;
     x \<leftarrow> (if \<not> complex_outputs q then tf_to_k_complex x else Some x);
     Some (x, store_layers q il ls)
   }"

subsection \<open>\<^verbatim>\<open>QPGA.as_sequential\<close>\<close>

text \<open>
  The \<^verbatim>\<open>Sequential\<close> model is the list of what \<^verbatim>\<open>model.add\<close> received. A layer
  of the circuit is added as the object itself, not as a copy: the stage names the place
  of the layer in the circuit, and running the stage applies, and updates, the layer
  found there. \<^verbatim>\<open>Input\<close> declares the shape and dtype of the input and computes
  nothing. Keras applies a layer to a symbolic tensor when it is added, which builds the
  layer at that moment; the model builds a layer at its first application to a batch, and
  \<^verbatim>\<open>build\<close> leaves the layer in the same state at either moment.
\<close>

datatype dtype = Float64 | Complex128

datatype stage =
    Input "rat list" dtype
  | Lambda_k_to_tf_complex
  | Lambda_tf_to_k_complex
  | The_input_layer
  | The_cphase_layer nat
  | The_single_qubit_layer nat

definition as_sequential :: "QPGA \<Rightarrow> stage list" where
  "as_sequential q =
     (if \<not> complex_inputs q
      then [Input [2, input_dim q] Float64, Lambda_k_to_tf_complex]
      else [Input [input_dim q] Complex128])
     @ [The_input_layer]
     @ concat (map (\<lambda>i. [The_cphase_layer i, The_single_qubit_layer i])
         [0..<min (length (cphase_layers q)) (length (single_qubit_layers q))])
     @ (if \<not> complex_outputs q then [Lambda_tf_to_k_complex] else [])"

fun run_stage :: "constants \<Rightarrow> stage \<Rightarrow> tensor \<times> QPGA \<Rightarrow> (tensor \<times> QPGA) option" where
  "run_stage K (Input shape dt) (x, q) = Some (x, q)"
| "run_stage K Lambda_k_to_tf_complex (x, q) = do { y \<leftarrow> k_to_tf_complex x; Some (y, q) }"
| "run_stage K Lambda_tf_to_k_complex (x, q) = do { y \<leftarrow> tf_to_k_complex x; Some (y, q) }"
| "run_stage K The_input_layer (x, q) = do {
     (y, L) \<leftarrow> SingleQubit_apply K (input_layer q) x;
     Some (y, q\<lparr>input_layer := L\<rparr>)
   }"
| "run_stage K (The_cphase_layer i) (x, q) =
     (if i < length (cphase_layers q) then do {
        (y, L) \<leftarrow> CPhase_apply K (cphase_layers q ! i) x;
        Some (y, q\<lparr>cphase_layers := (cphase_layers q)[i := L]\<rparr>)
      } else None)"
| "run_stage K (The_single_qubit_layer i) (x, q) =
     (if i < length (single_qubit_layers q) then do {
        (y, L) \<leftarrow> SingleQubit_apply K (single_qubit_layers q ! i) x;
        Some (y, q\<lparr>single_qubit_layers := (single_qubit_layers q)[i := L]\<rparr>)
      } else None)"

fun Sequential_call :: "constants \<Rightarrow> stage list \<Rightarrow> tensor \<times> QPGA \<Rightarrow> (tensor \<times> QPGA) option" where
  "Sequential_call K [] s = Some s"
| "Sequential_call K (st # sts) s = do { s' \<leftarrow> run_stage K st s; Sequential_call K sts s' }"

subsection \<open>\<^verbatim>\<open>antifidelity\<close>\<close>

text \<open>
  \<^verbatim>\<open>tf.reduce_sum(tf.multiply(tf.math.conj(state_true), state_pred), 1)\<close> on two
  complex batches. The model covers two batches of one shape; TensorFlow also accepts
  shapes that broadcast to each other, which are outside the model and give \<open>None\<close>.
\<close>

definition inner_prod :: "cvec \<Rightarrow> cvec \<Rightarrow> complex" where
  "inner_prod t p = sum_list (map2 (\<lambda>a b. cnj a * b) t p)"

definition antifidelity :: "tensor \<Rightarrow> tensor \<Rightarrow> real list option" where
  "antifidelity state_true state_pred = do {
     state_true \<leftarrow> k_to_tf_complex state_true;
     state_pred \<leftarrow> k_to_tf_complex state_pred;
     (case (state_true, state_pred) of
        (Cplx t, Cplx p) \<Rightarrow>
          if width t = width p \<and> length (rows t) = length (rows p)
          then let inner_prods = map2 inner_prod (rows t) (rows p);
                   amplitudes = map cmod inner_prods
               in Some (map (\<lambda>a. 1 - a ^ 2) amplitudes)
          else None
      | _ \<Rightarrow> None)
   }"

subsection \<open>Notions of the specification\<close>

text \<open>
  The predicates and the reference matrices of the specification, against which the
  functions of the source are compared. A matrix is unitary when its rows are orthonormal
  for the inner product \<open>\<Sum> conj(a) \<cdot> b\<close>.
\<close>

definition unitary :: "nat \<Rightarrow> cmat \<Rightarrow> bool" where
  "unitary d M \<longleftrightarrow>
     is_mat d d M \<and>
     list_all (\<lambda>i. list_all (\<lambda>j. inner_prod (M ! i) (M ! j) = (if i = j then 1 else 0)) [0..<d]) [0..<d]"

definition norm_sq :: "cvec \<Rightarrow> real" where
  "norm_sq v = sum_list (map (\<lambda>z. (cmod z)\<^sup>2) v)"

definition vnorm :: "cvec \<Rightarrow> real" where
  "vnorm v = sqrt (norm_sq v)"


text \<open>A \<open>d \<times> d\<close> matrix that is zero off its diagonal and has entries of modulus one
  on it.\<close>

definition unit_diagonal :: "nat \<Rightarrow> cmat \<Rightarrow> bool" where
  "unit_diagonal d M \<longleftrightarrow>
     is_mat d d M \<and>
     list_all (\<lambda>i. list_all (\<lambda>j. if i = j then cmod (M ! i ! j) = 1 else M ! i ! j = 0) [0..<d]) [0..<d]"

text \<open>The matrix \<open>diag(cos a + i sin a, cos b + i sin b)\<close> of one qubit, and the Kronecker
  product of these matrices over the qubits \<open>0..n-1\<close>, in this order.\<close>

definition phase_gate :: "real \<Rightarrow> real \<Rightarrow> cmat" where
  "phase_gate a b = [[Complex (cos a) (sin a), 0], [0, Complex (cos b) (sin b)]]"

definition spec_phase_diagonal :: "real list \<Rightarrow> real list \<Rightarrow> cmat" where
  "spec_phase_diagonal u v = kron_list (map (\<lambda>k. phase_gate (u ! k) (v ! k)) [0..<length u])"

text \<open>
  The block list of the Entangling Layer in the words of the specification. Parity 0: one
  controlled-phase gate for each pair (0,1), (2,3), ..., then one identity if \<open>n\<close> is odd.
  Parity 1: one identity for qubit 0, one gate for each pair (1,2), (3,4), ..., then one
  identity if one of the \<open>n - 1\<close> qubits after the first remains unpaired.
\<close>

definition spec_entangling_blocks :: "constants \<Rightarrow> nat \<Rightarrow> nat \<Rightarrow> bool \<Rightarrow> cmat list" where
  "spec_entangling_blocks K n parity use_standard =
     (let gate = (if use_standard then CPHASE K else CPHASE_MOD K)
      in if parity = 0
         then replicate (n div 2) gate @ (if odd n then [IDENTITY K] else [])
         else [IDENTITY K] @ replicate ((n - 1) div 2) gate
              @ (if odd (n - 1) then [IDENTITY K] else []))"

text \<open>
  One choice of the four gate constants, at which the theorems below are instantiated:
  the identity, a beam splitter and two controlled-phase gates. The values of
  \<^verbatim>\<open>qpga.constants\<close> themselves are not in \<^verbatim>\<open>model.py\<close>.
\<close>

definition example_constants :: constants where
  "example_constants =
     \<lparr>IDENTITY = [[1, 0], [0, 1]],
      CPHASE_MOD = [[- 1, 0, 0, 0], [0, - 1, 0, 0], [0, 0, - 1, 0], [0, 0, 0, 1]],
      BS_MATRIX = [[1 / sqrt 2, \<i> / sqrt 2], [\<i> / sqrt 2, 1 / sqrt 2]],
      CPHASE = [[1, 0, 0, 0], [0, 1, 0, 0], [0, 0, 1, 0], [0, 0, 0, - 1]]\<rparr>"

definition constants_ok :: "constants \<Rightarrow> bool" where
  "constants_ok K \<longleftrightarrow>
     is_mat 2 2 (IDENTITY K) \<and> is_mat 4 4 (CPHASE_MOD K) \<and>
     is_mat 2 2 (BS_MATRIX K) \<and> is_mat 4 4 (CPHASE K)"

definition constants_unitary :: "constants \<Rightarrow> bool" where
  "constants_unitary K \<longleftrightarrow>
     unitary 2 (IDENTITY K) \<and> unitary 4 (CPHASE_MOD K) \<and>
     unitary 2 (BS_MATRIX K) \<and> unitary 4 (CPHASE K)"

text \<open>
  The Single-Qubit Layer in the words of the specification: \<open>B\<close> is the Kronecker product
  of \<open>n\<close> copies of the beam-splitter constant, and the forward pass multiplies the batch
  from the right by \<open>P(\<alpha>, \<beta>)\<close>, \<open>B\<close>, \<open>P(\<theta>, 0)\<close>, \<open>B\<close>, \<open>P(\<phi>, 0)\<close>, in this order.
\<close>

definition spec_beam_splitter :: "constants \<Rightarrow> nat \<Rightarrow> cmat" where
  "spec_beam_splitter K n = kron_list (replicate n (BS_MATRIX K))"

definition spec_single_qubit_forward ::
  "constants \<Rightarrow> real list \<Rightarrow> real list \<Rightarrow> real list \<Rightarrow> real list \<Rightarrow> cvec list \<Rightarrow> cvec list" where
  "spec_single_qubit_forward K a b t p X =
     (let n = length a; B = spec_beam_splitter K n; zero = replicate n 0
      in mat_mul (mat_mul (mat_mul (mat_mul (mat_mul X
           (spec_phase_diagonal a b)) B) (spec_phase_diagonal t zero)) B)
           (spec_phase_diagonal p zero))"

text \<open>The weights that \<^verbatim>\<open>build\<close> creates for a layer, and the layer as \<^verbatim>\<open>build\<close>
  leaves it.\<close>

definition initial_weight :: "SingleQubitOperationLayer \<Rightarrow> nat \<Rightarrow> real list" where
  "initial_weight L w = map (sq_draws L w) [0..<nat (sq_num_qubits L)]"

definition built_single_qubit :: "constants \<Rightarrow> SingleQubitOperationLayer \<Rightarrow> SingleQubitOperationLayer" where
  "built_single_qubit K L =
     (let n = nat (sq_num_qubits L); zero = replicate n 0
      in L\<lparr>sq_state := Some
           \<lparr>alphas = initial_weight L 0, betas = initial_weight L 1,
            thetas = initial_weight L 2, phis = initial_weight L 3,
            input_shifts = spec_phase_diagonal (initial_weight L 0) (initial_weight L 1),
            theta_shifts = spec_phase_diagonal (initial_weight L 2) zero,
            phi_shifts = spec_phase_diagonal (initial_weight L 3) zero,
            bs_matrix = spec_beam_splitter K n\<rparr>\<rparr>)"


text \<open>The stages that \<^verbatim>\<open>as_sequential\<close> adds for the pairs \<open>k, ..., m - 1\<close> of layers.\<close>

definition loop_stages :: "nat \<Rightarrow> nat \<Rightarrow> stage list" where
  "loop_stages k m = concat (map (\<lambda>i. [The_cphase_layer i, The_single_qubit_layer i]) [k..<m])"

text \<open>The dimensions of the blocks of an Entangling Layer on \<open>n\<close> qubits.\<close>

definition block_dims :: "nat \<Rightarrow> nat \<Rightarrow> nat list" where
  "block_dims n parity =
     (if parity = 0 then replicate (n div 2) 4 @ (if odd n then [2] else [])
      else [2] @ replicate ((n - 1) div 2) 4 @ (if odd (n - 1) then [2] else []))"

text \<open>
  The transfer matrices of the two kinds of layer in the words of the specification, the
  list of the \<open>2 \<cdot> depth + 1\<close> transfer matrices of a circuit in the order of its layers,
  and the product of a list of \<open>d \<times> d\<close> matrices in the order of the list.
\<close>

definition spec_single_qubit_matrix ::
  "constants \<Rightarrow> real list \<Rightarrow> real list \<Rightarrow> real list \<Rightarrow> real list \<Rightarrow> cmat" where
  "spec_single_qubit_matrix K a b t p =
     (let n = length a; B = spec_beam_splitter K n; zero = replicate n 0
      in mat_mul (mat_mul (mat_mul (mat_mul
           (spec_phase_diagonal a b) B) (spec_phase_diagonal t zero)) B)
           (spec_phase_diagonal p zero))"

definition spec_entangling_matrix :: "constants \<Rightarrow> nat \<Rightarrow> nat \<Rightarrow> bool \<Rightarrow> cmat" where
  "spec_entangling_matrix K n parity use_standard =
     kron_list (spec_entangling_blocks K n parity use_standard)"

definition spec_layer_matrix :: "constants \<Rightarrow> (nat \<Rightarrow> nat \<Rightarrow> real) \<Rightarrow> nat \<Rightarrow> cmat" where
  "spec_layer_matrix K draws n =
     spec_single_qubit_matrix K (map (draws 0) [0..<n]) (map (draws 1) [0..<n])
       (map (draws 2) [0..<n]) (map (draws 3) [0..<n])"

definition spec_layer_matrices ::
  "constants \<Rightarrow> (nat \<Rightarrow> nat \<Rightarrow> nat \<Rightarrow> real) \<Rightarrow> nat \<Rightarrow> nat \<Rightarrow> bool \<Rightarrow> cmat list" where
  "spec_layer_matrices K draws n d use_standard =
     spec_layer_matrix K (draws 0) n
     # concat (map (\<lambda>i. [spec_entangling_matrix K n (i mod 2) use_standard,
                          spec_layer_matrix K (draws (Suc i)) n]) [0..<d])"

definition mat_product :: "nat \<Rightarrow> cmat list \<Rightarrow> cmat" where
  "mat_product d Ms = foldl mat_mul (identity_mat d) Ms"

text \<open>
  An Entangling Layer as \<^verbatim>\<open>build\<close> leaves it, and the layers that the theorems on whole
  circuits cover: a layer on \<open>n\<close> qubits that has not been built, or that is as
  \<^verbatim>\<open>build\<close> has left it.
\<close>

definition built_cphase :: "constants \<Rightarrow> CPhaseLayer \<Rightarrow> CPhaseLayer" where
  "built_cphase K L = L\<lparr>transfer_matrix := Some (tensors (cphase_ops K L))\<rparr>"

definition sq_ready :: "constants \<Rightarrow> int \<Rightarrow> SingleQubitOperationLayer \<Rightarrow> bool" where
  "sq_ready K n L \<longleftrightarrow>
     sq_num_qubits L = n \<and> sq_output_dim L = py_pow2 n \<and>
     (sq_state L = None \<or> sq_state L = sq_state (built_single_qubit K L))"

definition cp_ready :: "constants \<Rightarrow> int \<Rightarrow> CPhaseLayer \<Rightarrow> bool" where
  "cp_ready K n L \<longleftrightarrow>
     cp_num_qubits L = n \<and> cp_output_dim L = py_pow2 n \<and>
     (cp_parity L = 0 \<or> cp_parity L = 1) \<and>
     (transfer_matrix L = None \<or> transfer_matrix L = transfer_matrix (built_cphase K L))"

text \<open>The transfer matrices of the layers of a circuit, read off its layer objects.\<close>

definition sq_matrix :: "constants \<Rightarrow> SingleQubitOperationLayer \<Rightarrow> cmat" where
  "sq_matrix K L = spec_layer_matrix K (sq_draws L) (nat (sq_num_qubits L))"

definition cp_matrix :: "constants \<Rightarrow> CPhaseLayer \<Rightarrow> cmat" where
  "cp_matrix K L =
     spec_entangling_matrix K (nat (cp_num_qubits L)) (nat (cp_parity L)) (cp_use_standard_cphase L)"

definition pair_matrices ::
  "constants \<Rightarrow> (CPhaseLayer \<times> SingleQubitOperationLayer) list \<Rightarrow> cmat list" where
  "pair_matrices K ls = concat (map (\<lambda>l. [cp_matrix K (fst l), sq_matrix K (snd l)]) ls)"

definition built_pairs ::
  "constants \<Rightarrow> (CPhaseLayer \<times> SingleQubitOperationLayer) list \<Rightarrow>
   (CPhaseLayer \<times> SingleQubitOperationLayer) list" where
  "built_pairs K ls = map (\<lambda>l. (built_cphase K (fst l), built_single_qubit K (snd l))) ls"

text \<open>
  A circuit on at least one qubit all of whose layers are ready, the list of its transfer
  matrices, and the circuit after a forward call, when all layers are built.
\<close>

definition qpga_ready :: "constants \<Rightarrow> QPGA \<Rightarrow> bool" where
  "qpga_ready K q \<longleftrightarrow>
     1 \<le> num_qubits q \<and>
     sq_ready K (num_qubits q) (input_layer q) \<and>
     list_all (cp_ready K (num_qubits q)) (cphase_layers q) \<and>
     list_all (sq_ready K (num_qubits q)) (single_qubit_layers q)"

definition circuit_matrices :: "constants \<Rightarrow> QPGA \<Rightarrow> cmat list" where
  "circuit_matrices K q =
     sq_matrix K (input_layer q)
     # pair_matrices K (zip (cphase_layers q) (single_qubit_layers q))"

definition built_circuit :: "constants \<Rightarrow> QPGA \<Rightarrow> QPGA" where
  "built_circuit K q =
     store_layers q (built_single_qubit K (input_layer q))
       (built_pairs K (zip (cphase_layers q) (single_qubit_layers q)))"

text \<open>The output of the circuit for the complex batch \<open>x\<close>: the product with the transfer
  matrices, converted to the paired encoding unless \<open>complex_outputs\<close> is set.\<close>

definition spec_output :: "bool \<Rightarrow> nat \<Rightarrow> cvec list \<Rightarrow> cmat list \<Rightarrow> tensor option" where
  "spec_output c_out d X Ms =
     (let y = Cplx \<lparr>width = d, rows = mat_mul X (mat_product d Ms)\<rparr>
      in if \<not> c_out then tf_to_k_complex y else Some y)"

text \<open>The norm of each state of a batch, in either encoding.\<close>

fun tensor_norms :: "tensor \<Rightarrow> real list" where
  "tensor_norms (Cplx x) = map vnorm (rows x)"
| "tensor_norms (Paired x) =
     map (\<lambda>r. sqrt (sum_list (map (\<lambda>a. a\<^sup>2) (fst r)) + sum_list (map (\<lambda>b. b\<^sup>2) (snd r)))) (rrows x)"

text \<open>
  For the antifidelity metric: the complex form of one row of the paired encoding, a
  batch all of whose states have norm one, and the batch that holds the single basis state
  \<open>i\<close> of dimension \<open>d\<close> in the paired encoding.
\<close>

definition row_complex :: "real list \<times> real list \<Rightarrow> cvec" where
  "row_complex r = map2 Complex (fst r) (snd r)"

definition normalized :: "tensor \<Rightarrow> bool" where
  "normalized t \<longleftrightarrow> list_all (\<lambda>a. a = 1) (tensor_norms t)"

definition basis_state :: "nat \<Rightarrow> nat \<Rightarrow> tensor" where
  "basis_state d i =
     Paired \<lparr>rwidth = d, rrows = [(map (\<lambda>k. if i = k then 1 else 0) [0..<d], replicate d 0)]\<rparr>"

text \<open>
  The bit of qubit \<open>k\<close> in the basis index \<open>i\<close> of \<open>n\<close> qubits; qubit 0 is the most
  significant bit. The Kronecker product of \<open>n\<close> matrices of size \<open>2 \<times> 2\<close> in qubit order
  has, at \<open>(i, j)\<close>, the product over \<open>k\<close> of the entries of factor \<open>k\<close> at the bits of
  qubit \<open>k\<close> in \<open>i\<close> and \<open>j\<close>.
\<close>

definition qubit_bit :: "nat \<Rightarrow> nat \<Rightarrow> nat \<Rightarrow> nat" where
  "qubit_bit n k i = (i div 2 ^ (n - 1 - k)) mod 2"

section \<open>Matrices: shapes, products, Kronecker products\<close>

lemma is_mat_nth: "is_mat r c M \<Longrightarrow> i < r \<Longrightarrow> length (M ! i) = c"
  by (simp add: is_mat_def list_all_length)

lemma is_mat_length: "is_mat r c M \<Longrightarrow> length M = r"
  by (simp add: is_mat_def)

lemma is_mat_ncols: "is_mat r c M \<Longrightarrow> 0 < r \<Longrightarrow> ncols M = c"
  by (cases M) (auto simp: is_mat_def ncols_def)

lemma is_matI: "length M = r \<Longrightarrow> (\<And>i. i < r \<Longrightarrow> length (M ! i) = c) \<Longrightarrow> is_mat r c M"
  by (simp add: is_mat_def list_all_length)

lemma length_kron_row: "length (kron_row a b) = length a * length b"
  by (induction a) (simp_all add: kron_row_def)

lemma kron_row_Cons: "kron_row (x # a) b = map (\<lambda>y. x * y) b @ kron_row a b"
  by (simp add: kron_row_def)

lemma kron_row_nth:
  "j < length a \<Longrightarrow> l < length b \<Longrightarrow> kron_row a b ! (j * length b + l) = a ! j * b ! l"
proof (induction a arbitrary: j)
  case Nil
  then show ?case by simp
next
  case (Cons x a)
  show ?case
  proof (cases j)
    case 0
    with Cons.prems show ?thesis by (simp add: kron_row_Cons nth_append)
  next
    case (Suc j')
    with Cons.prems have "j' < length a" by simp
    from Cons.IH [OF this Cons.prems(2)] Suc show ?thesis
      by (simp add: kron_row_Cons nth_append)
  qed
qed

lemma kron_Cons: "kron (a # A) B = map (\<lambda>b. kron_row a b) B @ kron A B"
  by (simp add: kron_def)

lemma length_kron: "length (kron A B) = length A * length B"
  by (induction A) (simp_all add: kron_Cons, simp add: kron_def)

lemma kron_nth_row:
  "i < length A \<Longrightarrow> k < length B \<Longrightarrow> kron A B ! (i * length B + k) = kron_row (A ! i) (B ! k)"
proof (induction A arbitrary: i)
  case Nil
  then show ?case by simp
next
  case (Cons a A)
  show ?case
  proof (cases i)
    case 0
    with Cons.prems show ?thesis by (simp add: kron_Cons nth_append)
  next
    case (Suc i')
    with Cons.prems have "i' < length A" by simp
    from Cons.IH [OF this Cons.prems(2)] Suc show ?thesis
      by (simp add: kron_Cons nth_append)
  qed
qed

lemma div_mod_bounds:
  fixes r :: nat
  assumes "r < m * p"
  shows "r div p < m" and "r mod p < p" and "r div p * p + r mod p = r"
proof -
  from assms have p: "0 < p" by (cases p) auto
  show "r div p < m" using assms p by (simp add: less_mult_imp_div_less)
  show "r mod p < p" using p by simp
  show "r div p * p + r mod p = r" by simp
qed

lemma kron_row_of:
  assumes "is_mat m n A" "is_mat p q B" "r < m * p"
  shows "kron A B ! r = kron_row (A ! (r div p)) (B ! (r mod p))"
proof -
  have lA: "length A = m" and lB: "length B = p" using assms by (simp_all add: is_mat_def)
  from div_mod_bounds [OF assms(3)] have b: "r div p < m" "r mod p < p" "r div p * p + r mod p = r" .
  from kron_nth_row [of "r div p" A "r mod p" B] b lA lB show ?thesis by simp
qed

lemma kron_entry:
  assumes "is_mat m n A" "is_mat p q B" "r < m * p" "c < n * q"
  shows "kron A B ! r ! c = A ! (r div p) ! (c div q) * B ! (r mod p) ! (c mod q)"
proof -
  from div_mod_bounds [OF assms(3)] have b: "r div p < m" "r mod p < p" by simp_all
  from div_mod_bounds [OF assms(4)] have d: "c div q < n" "c mod q < q" "c div q * q + c mod q = c" .
  have la: "length (A ! (r div p)) = n" using assms(1) b by (simp add: is_mat_nth)
  have lb: "length (B ! (r mod p)) = q" using assms(2) b by (simp add: is_mat_nth)
  from kron_row_nth [of "c div q" "A ! (r div p)" "c mod q" "B ! (r mod p)"] d la lb
  show ?thesis by (simp add: kron_row_of [OF assms(1-3)])
qed

lemma is_mat_kron:
  assumes "is_mat m n A" "is_mat p q B"
  shows "is_mat (m * p) (n * q) (kron A B)"
proof (rule is_matI)
  show "length (kron A B) = m * p" using assms by (simp add: length_kron is_mat_def)
next
  fix i assume i: "i < m * p"
  from div_mod_bounds [OF i] have b: "i div p < m" "i mod p < p" by simp_all
  show "length (kron A B ! i) = n * q"
    using assms b by (simp add: kron_row_of [OF assms i] length_kron_row is_mat_nth)
qed

lemma sum_list_upt: "sum_list (map f [0..<n]) = sum f {..<n}"
  by (simp add: interv_sum_list_conv_sum_set_nat atLeast0LessThan)

lemma sum_list_map2:
  "length u = length v \<Longrightarrow> sum_list (map2 f u v) = (\<Sum>k<length u. f (u ! k) (v ! k))"
proof -
  assume l: "length u = length v"
  have "sum_list (map2 f u v) = (\<Sum>k = 0..<length (map2 f u v). map2 f u v ! k)"
    by (rule sum_list_sum_nth)
  also have "\<dots> = (\<Sum>k<length u. f (u ! k) (v ! k))"
    using l by (intro sum.cong) (auto simp: atLeast0LessThan)
  finally show ?thesis .
qed

lemma inner_prod_sum:
  "length u = length v \<Longrightarrow> inner_prod u v = (\<Sum>k<length u. cnj (u ! k) * v ! k)"
  by (simp add: inner_prod_def sum_list_map2)

lemma inner_prod_self: "inner_prod v v = of_real (norm_sq v)"
proof -
  have "inner_prod v v = (\<Sum>k<length v. cnj (v ! k) * v ! k)" by (simp add: inner_prod_sum)
  also have "\<dots> = (\<Sum>k<length v. of_real ((cmod (v ! k))\<^sup>2))"
    by (intro sum.cong refl) (metis complex_norm_square mult.commute)
  also have "\<dots> = of_real (\<Sum>k<length v. (cmod (v ! k))\<^sup>2)" by simp
  also have "(\<Sum>k<length v. (cmod (v ! k))\<^sup>2) = norm_sq v"
    unfolding norm_sq_def using sum_list_sum_nth [of "map (\<lambda>z. (cmod z)\<^sup>2) v"]
    by (simp add: atLeast0LessThan)
  finally show ?thesis .
qed

lemma length_vec_mat: "length (vec_mat v M) = ncols M"
  by (simp add: vec_mat_def)

lemma vec_mat_nth:
  "j < ncols M \<Longrightarrow> vec_mat v M ! j = (\<Sum>k<length M. v ! k * M ! k ! j)"
  by (simp add: vec_mat_def sum_list_upt)

lemma unitary_is_mat: "unitary d M \<Longrightarrow> is_mat d d M"
  by (simp add: unitary_def)

lemma unitary_ip:
  "unitary d M \<Longrightarrow> i < d \<Longrightarrow> j < d \<Longrightarrow> inner_prod (M ! i) (M ! j) = (if i = j then 1 else 0)"
  by (simp add: unitary_def list_all_iff)

lemma unitaryI:
  "is_mat d d M \<Longrightarrow>
   (\<And>i j. i < d \<Longrightarrow> j < d \<Longrightarrow> inner_prod (M ! i) (M ! j) = (if i = j then 1 else 0)) \<Longrightarrow>
   unitary d M"
  by (simp add: unitary_def list_all_iff)

lemma sum_delta_mult:
  fixes f :: "nat \<Rightarrow> complex"
  assumes "k < d"
  shows "(\<Sum>l<d. f l * (if k = l then 1 else 0)) = f k"
proof -
  have "(\<Sum>l<d. f l * (if k = l then 1 else 0)) = (\<Sum>l<d. if k = l then f l else 0)"
    by (intro sum.cong refl) simp
  also have "\<dots> = f k" using assms by (simp add: sum.delta')
  finally show ?thesis .
qed

lemma vec_mat_inner_prod:
  assumes U: "unitary d M" and lu: "length u = d" and lv: "length v = d"
  shows "inner_prod (vec_mat u M) (vec_mat v M) = inner_prod u v"
proof (cases "d = 0")
  case True
  with U lu lv show ?thesis by (simp add: unitary_def is_mat_def vec_mat_def ncols_def)
next
  case False
  then have d: "0 < d" by simp
  have M: "is_mat d d M" using U by (rule unitary_is_mat)
  have lM: "length M = d" and nc: "ncols M = d"
    using M d by (simp_all add: is_mat_length is_mat_ncols)
  let ?a = "vec_mat u M" and ?b = "vec_mat v M"
  have la: "length ?a = d" "length ?b = d" by (simp_all add: length_vec_mat nc)
  have rowip: "(\<Sum>j<d. cnj (M ! k ! j) * M ! l ! j) = (if k = l then 1 else 0)"
    if kl: "k < d" "l < d" for k l
  proof -
    have "inner_prod (M ! k) (M ! l) = (\<Sum>j<d. cnj (M ! k ! j) * M ! l ! j)"
      using inner_prod_sum [of "M ! k" "M ! l"] M kl by (simp add: is_mat_nth)
    with unitary_ip [OF U kl] show ?thesis by simp
  qed
  have "inner_prod ?a ?b = (\<Sum>j<d. cnj (?a ! j) * ?b ! j)" by (simp add: inner_prod_sum la)
  also have "\<dots> = (\<Sum>j<d. (\<Sum>k<d. cnj (u ! k) * cnj (M ! k ! j)) * (\<Sum>l<d. v ! l * M ! l ! j))"
    by (intro sum.cong refl) (simp add: vec_mat_nth nc lM)
  also have "\<dots> = (\<Sum>j<d. \<Sum>k<d. \<Sum>l<d. (cnj (u ! k) * v ! l) * (cnj (M ! k ! j) * M ! l ! j))"
    unfolding sum_product by (intro sum.cong refl) (simp add: mult_ac)
  also have "\<dots> = (\<Sum>k<d. \<Sum>j<d. \<Sum>l<d. (cnj (u ! k) * v ! l) * (cnj (M ! k ! j) * M ! l ! j))"
    by (rule sum.swap)
  also have "\<dots> = (\<Sum>k<d. \<Sum>l<d. \<Sum>j<d. (cnj (u ! k) * v ! l) * (cnj (M ! k ! j) * M ! l ! j))"
    by (rule sum.cong [OF refl]) (rule sum.swap)
  also have "\<dots> = (\<Sum>k<d. \<Sum>l<d. (cnj (u ! k) * v ! l) * (if k = l then 1 else 0))"
    by (intro sum.cong refl) (simp add: sum_distrib_left [symmetric] rowip)
  also have "\<dots> = (\<Sum>k<d. cnj (u ! k) * v ! k)"
    by (intro sum.cong refl) (simp add: sum_delta_mult)
  also have "\<dots> = inner_prod u v" by (simp add: inner_prod_sum lu lv)
  finally show ?thesis .
qed

lemma vec_mat_norm_sq:
  assumes "unitary d M" and "length v = d"
  shows "norm_sq (vec_mat v M) = norm_sq v"
proof -
  have "complex_of_real (norm_sq (vec_mat v M)) = complex_of_real (norm_sq v)"
    using vec_mat_inner_prod [OF assms(1) assms(2) assms(2)] by (simp add: inner_prod_self)
  then show ?thesis by (simp only: of_real_eq_iff)
qed

lemma inner_prod_Nil [simp]: "inner_prod [] v = 0" "inner_prod u [] = 0"
  by (simp_all add: inner_prod_def)

lemma inner_prod_Cons [simp]: "inner_prod (x # u) (y # v) = cnj x * y + inner_prod u v"
  by (simp add: inner_prod_def)

lemma inner_prod_append:
  "length u = length v \<Longrightarrow> inner_prod (u @ u') (v @ v') = inner_prod u v + inner_prod u' v'"
  by (induction u v rule: list_induct2) (simp_all add: add.assoc)

lemma inner_prod_scale:
  "inner_prod (map (\<lambda>y. x * y) b) (map (\<lambda>y. x' * y) b') = cnj x * x' * inner_prod b b'"
proof (induction b arbitrary: b')
  case Nil
  then show ?case by simp
next
  case (Cons y b)
  then show ?case by (cases b') (simp_all add: algebra_simps)
qed

lemma inner_prod_kron_row:
  "length a = length a' \<Longrightarrow> length b = length b' \<Longrightarrow>
   inner_prod (kron_row a b) (kron_row a' b') = inner_prod a a' * inner_prod b b'"
proof (induction a a' rule: list_induct2)
  case Nil
  then show ?case by (simp add: kron_row_def)
next
  case (Cons x a x' a')
  then show ?case
    by (simp add: kron_row_Cons inner_prod_append inner_prod_scale distrib_right)
qed

lemma div_mod_eq_iff:
  fixes r :: nat
  shows "r = r' \<longleftrightarrow> r div p = r' div p \<and> r mod p = r' mod p"
  by (metis div_mult_mod_eq)

lemma unitary_kron:
  assumes A: "unitary m A" and B: "unitary p B"
  shows "unitary (m * p) (kron A B)"
proof (rule unitaryI)
  have mA: "is_mat m m A" and mB: "is_mat p p B"
    using A B by (simp_all add: unitary_is_mat)
  show "is_mat (m * p) (m * p) (kron A B)" by (rule is_mat_kron [OF mA mB])
  fix r r' assume r: "r < m * p" and r': "r' < m * p"
  from div_mod_bounds [OF r] have b: "r div p < m" "r mod p < p" by simp_all
  from div_mod_bounds [OF r'] have b': "r' div p < m" "r' mod p < p" by simp_all
  have "inner_prod (kron A B ! r) (kron A B ! r') =
        inner_prod (A ! (r div p)) (A ! (r' div p)) * inner_prod (B ! (r mod p)) (B ! (r' mod p))"
    using mA mB b b'
    by (simp add: kron_row_of [OF mA mB r] kron_row_of [OF mA mB r'] inner_prod_kron_row is_mat_nth)
  also have "\<dots> = (if r div p = r' div p then 1 else 0) * (if r mod p = r' mod p then 1 else 0)"
    by (simp only: unitary_ip [OF A b(1) b'(1)] unitary_ip [OF B b(2) b'(2)])
  also have "\<dots> = (if r = r' then 1 else 0)"
    using div_mod_eq_iff [of r r' p] by auto
  finally show "inner_prod (kron A B ! r) (kron A B ! r') = (if r = r' then 1 else 0)" .
qed

lemma unitary_one: "unitary (Suc 0) [[1]]"
  by (simp add: unitary_def is_mat_def)

lemma unitary_kron_list:
  "list_all2 unitary ds Ms \<Longrightarrow> unitary (prod_list ds) (kron_list Ms)"
proof (induction Ms arbitrary: ds rule: kron_list.induct)
  case 1
  then show ?case by (simp add: unitary_one)
next
  case (2 m)
  then show ?case by (auto simp: list_all2_Cons2)
next
  case (3 m m' ms)
  from "3.prems" obtain d ds' where ds: "ds = d # ds'" and d: "unitary d m"
    and rest: "list_all2 unitary ds' (m' # ms)"
    by (auto simp: list_all2_Cons2)
  from "3.IH" [OF rest] have "unitary (prod_list ds') (kron_list (m' # ms))" .
  from unitary_kron [OF d this] ds show ?case by simp
qed

lemma is_mat_kron_list:
  "list_all2 (\<lambda>d M. is_mat d d M) ds Ms \<Longrightarrow> is_mat (prod_list ds) (prod_list ds) (kron_list Ms)"
proof (induction Ms arbitrary: ds rule: kron_list.induct)
  case 1
  then show ?case by (simp add: is_mat_def)
next
  case (2 m)
  then show ?case by (auto simp: list_all2_Cons2)
next
  case (3 m m' ms)
  from "3.prems" obtain d ds' where ds: "ds = d # ds'" and d: "is_mat d d m"
    and rest: "list_all2 (\<lambda>d M. is_mat d d M) ds' (m' # ms)"
    by (auto simp: list_all2_Cons2)
  from "3.IH" [OF rest] have "is_mat (prod_list ds') (prod_list ds') (kron_list (m' # ms))" .
  from is_mat_kron [OF d this] ds show ?case by simp
qed

lemma length_mat_mul [simp]: "length (mat_mul A B) = length A"
  by (simp add: mat_mul_def)

lemma mat_mul_nth: "i < length A \<Longrightarrow> mat_mul A B ! i = vec_mat (A ! i) B"
  by (simp add: mat_mul_def)

lemma is_mat_mat_mul: "is_mat (length A) (ncols B) (mat_mul A B)"
  by (simp add: is_mat_def mat_mul_def list_all_iff length_vec_mat)

lemma ncols_mat_mul: "A \<noteq> [] \<Longrightarrow> ncols (mat_mul A B) = ncols B"
  by (cases A) (simp_all add: ncols_def mat_mul_def length_vec_mat)

lemma vec_mat_assoc:
  assumes A: "is_mat d e A" and B: "is_mat e f B" and d: "0 < d" and e: "0 < e"
  shows "vec_mat (vec_mat v A) B = vec_mat v (mat_mul A B)"
proof (rule nth_equalityI)
  have lA: "length A = d" and cA: "ncols A = e" using A d by (simp_all add: is_mat_length is_mat_ncols)
  have lB: "length B = e" and cB: "ncols B = f" using B e by (simp_all add: is_mat_length is_mat_ncols)
  have Ane: "A \<noteq> []" using lA d by auto
  have cAB: "ncols (mat_mul A B) = f" using Ane cB by (simp add: ncols_mat_mul)
  show "length (vec_mat (vec_mat v A) B) = length (vec_mat v (mat_mul A B))"
    by (simp add: length_vec_mat cAB cB)
  fix j assume "j < length (vec_mat (vec_mat v A) B)"
  then have j: "j < f" by (simp add: length_vec_mat cB)
  have "vec_mat (vec_mat v A) B ! j = (\<Sum>k<e. vec_mat v A ! k * B ! k ! j)"
    using j by (simp add: vec_mat_nth cB lB)
  also have "\<dots> = (\<Sum>k<e. (\<Sum>l<d. v ! l * A ! l ! k) * B ! k ! j)"
    by (intro sum.cong refl) (simp add: vec_mat_nth cA lA)
  also have "\<dots> = (\<Sum>k<e. \<Sum>l<d. v ! l * (A ! l ! k * B ! k ! j))"
    by (intro sum.cong refl) (simp add: sum_distrib_right mult.assoc)
  also have "\<dots> = (\<Sum>l<d. \<Sum>k<e. v ! l * (A ! l ! k * B ! k ! j))"
    by (rule sum.swap)
  also have "\<dots> = (\<Sum>l<d. v ! l * (\<Sum>k<e. A ! l ! k * B ! k ! j))"
    by (simp add: sum_distrib_left)
  also have "\<dots> = (\<Sum>l<d. v ! l * mat_mul A B ! l ! j)"
    using j by (intro sum.cong refl) (simp add: mat_mul_nth lA vec_mat_nth cB lB)
  also have "\<dots> = vec_mat v (mat_mul A B) ! j"
    using j by (simp add: vec_mat_nth cAB lA)
  finally show "vec_mat (vec_mat v A) B ! j = vec_mat v (mat_mul A B) ! j" .
qed

lemma mat_mul_assoc:
  assumes "is_mat d e A" "is_mat e f B" "0 < d" "0 < e"
  shows "mat_mul (mat_mul X A) B = mat_mul X (mat_mul A B)"
  by (simp add: mat_mul_def vec_mat_assoc [OF assms])

lemma is_mat_identity: "is_mat d d (identity_mat d)"
  by (simp add: is_mat_def identity_mat_def list_all_iff)

lemma identity_nth: "i < d \<Longrightarrow> j < d \<Longrightarrow> identity_mat d ! i ! j = (if i = j then 1 else 0)"
  by (simp add: identity_mat_def)

lemma vec_mat_identity:
  assumes "length v = d" "0 < d"
  shows "vec_mat v (identity_mat d) = v"
proof (rule nth_equalityI)
  have l: "length (identity_mat d) = d" and c: "ncols (identity_mat d) = d"
    using is_mat_identity [of d] assms(2) by (simp_all add: is_mat_length is_mat_ncols)
  show "length (vec_mat v (identity_mat d)) = length v" by (simp add: length_vec_mat c assms)
  fix j assume "j < length (vec_mat v (identity_mat d))"
  then have j: "j < d" by (simp add: length_vec_mat c)
  have "vec_mat v (identity_mat d) ! j = (\<Sum>k<d. v ! k * identity_mat d ! k ! j)"
    using j by (simp add: vec_mat_nth c l)
  also have "\<dots> = (\<Sum>k<d. v ! k * (if j = k then 1 else 0))"
    using j by (intro sum.cong refl) (auto simp add: identity_nth)
  also have "\<dots> = v ! j" using j by (rule sum_delta_mult)
  finally show "vec_mat v (identity_mat d) ! j = v ! j" .
qed

lemma mat_mul_identity:
  assumes "list_all (\<lambda>r. length r = d) X" "0 < d"
  shows "mat_mul X (identity_mat d) = X"
  using assms by (simp add: mat_mul_def list_all_iff vec_mat_identity map_idI)

lemma mat_mul_rows_ok:
  "is_mat d d M \<Longrightarrow> 0 < d \<Longrightarrow> list_all (\<lambda>r. length r = d) (mat_mul X M)"
  by (simp add: mat_mul_def list_all_iff length_vec_mat is_mat_ncols)

lemma mat_mul_norm_sq:
  assumes "unitary d M" "i < length X" "length (X ! i) = d"
  shows "norm_sq (mat_mul X M ! i) = norm_sq (X ! i)"
  using assms by (simp add: mat_mul_nth vec_mat_norm_sq)

lemma dot_Cplx:
  assumes "is_mat d d M" "0 < d" "width x = d"
  shows "dot (Cplx x) M = Some (Cplx \<lparr>width = d, rows = mat_mul (rows x) M\<rparr>)"
  using assms by (simp add: is_mat_length is_mat_ncols)

lemma is_mat_mat_mul_sq:
  "is_mat d d A \<Longrightarrow> is_mat d d B \<Longrightarrow> 0 < d \<Longrightarrow> is_mat d d (mat_mul A B)"
  using is_mat_mat_mul [of A B] by (simp add: is_mat_length is_mat_ncols)

lemma unitary_mat_mul:
  assumes A: "unitary d A" and B: "unitary d B" and d: "0 < d"
  shows "unitary d (mat_mul A B)"
proof (rule unitaryI)
  have mA: "is_mat d d A" and mB: "is_mat d d B" using A B by (simp_all add: unitary_is_mat)
  show "is_mat d d (mat_mul A B)" by (rule is_mat_mat_mul_sq [OF mA mB d])
  fix i j assume ij: "i < d" "j < d"
  have l: "length (A ! i) = d" "length (A ! j) = d" "length A = d"
    using mA ij by (simp_all add: is_mat_nth is_mat_length)
  show "inner_prod (mat_mul A B ! i) (mat_mul A B ! j) = (if i = j then 1 else 0)"
    using ij l by (simp add: mat_mul_nth vec_mat_inner_prod [OF B] unitary_ip [OF A])
qed

lemma foldl_mat_mul:
  assumes "list_all (is_mat d d) Ms" "is_mat d d A" "0 < d"
  shows "foldl mat_mul (mat_mul X A) Ms = mat_mul X (foldl mat_mul A Ms)"
  using assms
proof (induction Ms arbitrary: A)
  case Nil
  then show ?case by simp
next
  case (Cons M Ms)
  then have M: "is_mat d d M" and Ms: "list_all (is_mat d d) Ms" by simp_all
  have "foldl mat_mul (mat_mul X A) (M # Ms) = foldl mat_mul (mat_mul X (mat_mul A M)) Ms"
    by (simp add: mat_mul_assoc [OF Cons.prems(2) M Cons.prems(3) Cons.prems(3)])
  also have "\<dots> = mat_mul X (foldl mat_mul (mat_mul A M) Ms)"
    by (rule Cons.IH [OF Ms is_mat_mat_mul_sq [OF Cons.prems(2) M Cons.prems(3)] Cons.prems(3)])
  finally show ?case by simp
qed

lemma foldl_mat_product:
  assumes "list_all (is_mat d d) Ms" "list_all (\<lambda>r. length r = d) X" "0 < d"
  shows "foldl mat_mul X Ms = mat_mul X (mat_product d Ms)"
  using foldl_mat_mul [OF assms(1) is_mat_identity assms(3), of X]
  by (simp add: mat_product_def mat_mul_identity [OF assms(2) assms(3)])

lemma is_mat_foldl:
  assumes "list_all (is_mat d d) Ms" "is_mat d d A" "0 < d"
  shows "is_mat d d (foldl mat_mul A Ms)"
  using assms
  by (induction Ms arbitrary: A) (simp_all add: is_mat_mat_mul_sq)

lemma unitary_foldl:
  assumes "list_all (unitary d) Ms" "unitary d A" "0 < d"
  shows "unitary d (foldl mat_mul A Ms)"
  using assms
  by (induction Ms arbitrary: A) (simp_all add: unitary_mat_mul)

lemma unitary_identity: "unitary d (identity_mat d)"
proof (rule unitaryI)
  show "is_mat d d (identity_mat d)" by (rule is_mat_identity)
  fix i j assume ij: "i < d" "j < d"
  have "inner_prod (identity_mat d ! i) (identity_mat d ! j)
      = (\<Sum>k<d. cnj (if i = k then 1 else 0) * (if j = k then 1 else 0))"
    using ij inner_prod_sum [of "identity_mat d ! i" "identity_mat d ! j"]
    by (simp add: identity_mat_def)
  also have "\<dots> = (\<Sum>k<d. (if i = k then 1 else 0) * (if j = k then 1 else 0))"
    by (intro sum.cong refl) simp
  also have "\<dots> = (if i = j then 1 else 0)"
    using ij sum_delta_mult [of j d "\<lambda>k. if i = k then 1 else 0"] by simp
  finally show "inner_prod (identity_mat d ! i) (identity_mat d ! j) = (if i = j then 1 else 0)" .
qed

lemma unitary_mat_product:
  "list_all (unitary d) Ms \<Longrightarrow> 0 < d \<Longrightarrow> unitary d (mat_product d Ms)"
  by (simp add: mat_product_def unitary_foldl unitary_identity)

lemma is_mat_mat_product:
  "list_all (is_mat d d) Ms \<Longrightarrow> 0 < d \<Longrightarrow> is_mat d d (mat_product d Ms)"
  by (simp add: mat_product_def is_mat_foldl is_mat_identity)

section \<open>The example constants\<close>

lemma example_constants_ok: "constants_ok example_constants"
  by (simp add: constants_ok_def example_constants_def is_mat_def)

lemma upt_2: "[0..<2] = [0, 1]"
  by (simp add: upt_rec)

lemma upt_4: "[0..<4] = [0, 1, 2, 3]"
  by (simp add: upt_rec)

lemma unitary_example_identity: "unitary 2 (IDENTITY example_constants)"
  by (simp add: example_constants_def unitary_def is_mat_def upt_2)

lemma unitary_example_cphase: "unitary 4 (CPHASE example_constants)"
  by (simp add: example_constants_def unitary_def is_mat_def upt_4)

lemma unitary_example_cphase_mod: "unitary 4 (CPHASE_MOD example_constants)"
  by (simp add: example_constants_def unitary_def is_mat_def upt_4)

lemma sqrt2_sq: "complex_of_real (sqrt 2) * complex_of_real (sqrt 2) = 2"
proof -
  have "complex_of_real (sqrt 2) * complex_of_real (sqrt 2) = complex_of_real (sqrt 2 * sqrt 2)"
    by (simp only: of_real_mult)
  then show ?thesis by simp
qed

lemma unitary_example_bs: "unitary 2 (BS_MATRIX example_constants)"
  by (simp add: example_constants_def unitary_def is_mat_def upt_2 sqrt2_sq)

lemma example_constants_unitary: "constants_unitary example_constants"
  by (simp add: constants_unitary_def unitary_example_identity unitary_example_cphase
      unitary_example_cphase_mod unitary_example_bs)

section \<open>The phase-diagonal builder\<close>

lemma unit_diagonalI:
  "is_mat d d M \<Longrightarrow> (\<And>i. i < d \<Longrightarrow> cmod (M ! i ! i) = 1) \<Longrightarrow>
   (\<And>i j. i < d \<Longrightarrow> j < d \<Longrightarrow> i \<noteq> j \<Longrightarrow> M ! i ! j = 0) \<Longrightarrow> unit_diagonal d M"
  by (simp add: unit_diagonal_def list_all_iff)

lemma unit_diagonal_is_mat: "unit_diagonal d M \<Longrightarrow> is_mat d d M"
  by (simp add: unit_diagonal_def)

lemma unit_diagonal_diag: "unit_diagonal d M \<Longrightarrow> i < d \<Longrightarrow> cmod (M ! i ! i) = 1"
  by (simp add: unit_diagonal_def list_all_iff)

lemma unit_diagonal_off: "unit_diagonal d M \<Longrightarrow> i < d \<Longrightarrow> j < d \<Longrightarrow> i \<noteq> j \<Longrightarrow> M ! i ! j = 0"
  by (auto simp add: unit_diagonal_def list_all_iff)

lemma unit_diagonal_kron:
  assumes A: "unit_diagonal m A" and B: "unit_diagonal p B"
  shows "unit_diagonal (m * p) (kron A B)"
proof (rule unit_diagonalI)
  have mA: "is_mat m m A" and mB: "is_mat p p B"
    using A B by (simp_all add: unit_diagonal_is_mat)
  show "is_mat (m * p) (m * p) (kron A B)" by (rule is_mat_kron [OF mA mB])
  show "cmod (kron A B ! i ! i) = 1" if i: "i < m * p" for i
  proof -
    from div_mod_bounds [OF i] have b: "i div p < m" "i mod p < p" by simp_all
    show ?thesis
      by (simp add: kron_entry [OF mA mB i i] norm_mult
          unit_diagonal_diag [OF A b(1)] unit_diagonal_diag [OF B b(2)])
  qed
  show "kron A B ! i ! j = 0" if i: "i < m * p" and j: "j < m * p" and ne: "i \<noteq> j" for i j
  proof -
    from div_mod_bounds [OF i] have b: "i div p < m" "i mod p < p" by simp_all
    from div_mod_bounds [OF j] have c: "j div p < m" "j mod p < p" by simp_all
    from ne div_mod_eq_iff [of i j p] have "i div p \<noteq> j div p \<or> i mod p \<noteq> j mod p" by simp
    then show ?thesis
    proof
      assume "i div p \<noteq> j div p"
      from unit_diagonal_off [OF A b(1) c(1) this] show ?thesis
        by (simp add: kron_entry [OF mA mB i j])
    next
      assume "i mod p \<noteq> j mod p"
      from unit_diagonal_off [OF B b(2) c(2) this] show ?thesis
        by (simp add: kron_entry [OF mA mB i j])
    qed
  qed
qed

lemma unit_diagonal_kron_list:
  "Ms \<noteq> [] \<Longrightarrow> list_all (unit_diagonal 2) Ms \<Longrightarrow> unit_diagonal (2 ^ length Ms) (kron_list Ms)"
proof (induction Ms rule: kron_list.induct)
  case 1
  then show ?case by simp
next
  case (2 m)
  then show ?case by simp
next
  case (3 m m' ms)
  then have "unit_diagonal (2 ^ length (m' # ms)) (kron_list (m' # ms))" and "unit_diagonal 2 m"
    by simp_all
  from unit_diagonal_kron [OF this(2) this(1)] show ?case by simp
qed

lemma cmod_phase [simp]: "cmod (Complex (cos a) (sin a)) = 1"
  by (simp add: cmod_def)

lemma unit_diagonal_phase_gate: "unit_diagonal 2 (phase_gate a b)"
  by (simp add: unit_diagonal_def phase_gate_def is_mat_def upt_rec numeral_2_eq_2)

lemma tensor_diag_pair: "tensor_diag [Complex (cos a) (sin a), Complex (cos b) (sin b)] = phase_gate a b"
  by (simp add: tensor_diag_def phase_gate_def upt_rec numeral_2_eq_2)

lemma phase_ops:
  assumes "length v = length u"
  shows "map tensor_diag (map2 (\<lambda>a b. [a, b]) (phase_complex u) (phase_complex v))
         = map (\<lambda>k. phase_gate (u ! k) (v ! k)) [0..<length u]"
  using assms
  by (intro nth_equalityI) (simp_all add: phase_complex_def tensor_diag_pair)

lemma phase_shifts_Some:
  assumes "0 < length u" "length v = length u"
  shows "phase_shifts_to_tensor_product_space u v
         = Some (map (\<lambda>k. phase_gate (u ! k) (v ! k)) [0..<length u])"
proof -
  let ?ops = "map tensor_diag (map2 (\<lambda>a b. [a, b]) (phase_complex u) (phase_complex v))"
  have e: "?ops = map (\<lambda>k. phase_gate (u ! k) (v ! k)) [0..<length u]"
    by (rule phase_ops [OF assms(2)])
  have ne: "?ops \<noteq> []" unfolding e using assms(1) by simp
  show ?thesis
    unfolding phase_shifts_to_tensor_product_space_def Let_def
    using ne e assms(2) by (simp only: if_False simp_thms)
qed

lemma qubit_bit_0:
  "i < 2 ^ Suc m \<Longrightarrow> qubit_bit (Suc m) 0 i = i div 2 ^ m"
proof -
  assume "i < 2 ^ Suc m"
  then have "i div 2 ^ m < 2" by (simp add: less_mult_imp_div_less mult.commute)
  then show ?thesis by (simp add: qubit_bit_def)
qed

lemma qubit_bit_Suc:
  assumes "k < m"
  shows "qubit_bit (Suc m) (Suc k) i = qubit_bit m k (i mod 2 ^ m)"
proof -
  let ?a = "2 ^ (m - 1 - k) :: nat"
  have m: "m = (m - 1 - k) + Suc k" using assms by simp
  have p: "(2 ^ m :: nat) = ?a * (2 * 2 ^ k)"
    by (subst m) (simp only: power_add power_Suc)
  have "(i mod 2 ^ m) div ?a = (i div ?a) mod (2 * 2 ^ k)"
    unfolding p by (simp add: mod_mult2_eq)
  then have "((i mod 2 ^ m) div ?a) mod 2 = (i div ?a) mod 2"
    by (simp add: mod_mod_cancel)
  then show ?thesis by (simp add: qubit_bit_def)
qed

lemma is_mat_kron_list_2:
  assumes "list_all (is_mat 2 2) Ms"
  shows "is_mat (2 ^ length Ms) (2 ^ length Ms) (kron_list Ms)"
proof -
  have "list_all2 (\<lambda>d M. is_mat d d M) (replicate (length Ms) 2) Ms"
    using assms by (simp add: list_all2_conv_all_nth list_all_length)
  from is_mat_kron_list [OF this] show ?thesis by simp
qed

lemma kron_list_entry:
  assumes "Ms \<noteq> []" "list_all (is_mat 2 2) Ms" "i < 2 ^ length Ms" "j < 2 ^ length Ms"
  shows "kron_list Ms ! i ! j
         = (\<Prod>k<length Ms. Ms ! k ! qubit_bit (length Ms) k i ! qubit_bit (length Ms) k j)"
  using assms
proof (induction Ms arbitrary: i j rule: kron_list.induct)
  case 1
  then show ?case by simp
next
  case (2 m)
  then show ?case by (simp add: qubit_bit_def)
next
  case (3 m m' ms)
  let ?Ms = "m' # ms"
  let ?n = "length ?Ms"
  let ?d = "2 ^ ?n :: nat"
  have m2: "is_mat 2 2 m" and rest: "list_all (is_mat 2 2) ?Ms" using "3.prems"(2) by simp_all
  have B: "is_mat ?d ?d (kron_list ?Ms)" by (rule is_mat_kron_list_2 [OF rest])
  have i: "i < 2 * ?d" and j: "j < 2 * ?d" using "3.prems"(3,4) by simp_all
  have im: "i mod ?d < ?d" and jm: "j mod ?d < ?d" by simp_all
  have IH: "kron_list ?Ms ! (i mod ?d) ! (j mod ?d)
      = (\<Prod>k<?n. ?Ms ! k ! qubit_bit ?n k (i mod ?d) ! qubit_bit ?n k (j mod ?d))"
    by (rule "3.IH" [OF _ rest im jm]) simp
  have "kron_list (m # ?Ms) ! i ! j = m ! (i div ?d) ! (j div ?d) * kron_list ?Ms ! (i mod ?d) ! (j mod ?d)"
    using kron_entry [OF m2 B i j] by simp
  also have "\<dots> = m ! qubit_bit (Suc ?n) 0 i ! qubit_bit (Suc ?n) 0 j
      * (\<Prod>k<?n. ?Ms ! k ! qubit_bit (Suc ?n) (Suc k) i ! qubit_bit (Suc ?n) (Suc k) j)"
    using "3.prems"(3,4) unfolding IH
    by (simp add: qubit_bit_0 qubit_bit_Suc del: length_Cons power_Suc)
  also have "\<dots> = (\<Prod>k<Suc ?n. (m # ?Ms) ! k ! qubit_bit (Suc ?n) k i ! qubit_bit (Suc ?n) k j)"
    by (simp add: prod.lessThan_Suc_shift del: length_Cons prod.lessThan_Suc)
  finally show ?case by simp
qed

lemma spec_phase_diagonal_entry:
  assumes "i < 2 ^ length u" "j < 2 ^ length u"
  shows "spec_phase_diagonal u v ! i ! j
         = (\<Prod>k<length u. phase_gate (u ! k) (v ! k)
              ! qubit_bit (length u) k i ! qubit_bit (length u) k j)"
proof (cases "length u = 0")
  case True
  with assms show ?thesis by (simp add: spec_phase_diagonal_def)
next
  case False
  let ?ops = "map (\<lambda>k. phase_gate (u ! k) (v ! k)) [0..<length u]"
  have ne: "?ops \<noteq> []" using False by simp
  have all: "list_all (is_mat 2 2) ?ops"
    by (simp add: list_all_iff unit_diagonal_is_mat [OF unit_diagonal_phase_gate])
  have "kron_list ?ops ! i ! j
      = (\<Prod>k<length ?ops. ?ops ! k ! qubit_bit (length ?ops) k i ! qubit_bit (length ?ops) k j)"
    by (rule kron_list_entry [OF ne all]) (simp_all add: assms)
  also have "\<dots> = (\<Prod>k<length u. phase_gate (u ! k) (v ! k)
      ! qubit_bit (length u) k i ! qubit_bit (length u) k j)"
    by (intro prod.cong) simp_all
  finally show ?thesis by (simp add: spec_phase_diagonal_def)
qed

text \<open>
  C4: for two real vectors \<open>u\<close>, \<open>v\<close> of one length \<open>n \<ge> 1\<close>, whatever their entries,
  \<^verbatim>\<open>phase_shifts_to_tensor_product_space\<close> does not fail and returns the operators
  \<open>diag(cos u\<^sub>k + i sin u\<^sub>k, cos v\<^sub>k + i sin v\<^sub>k)\<close> for \<open>k = 0..n-1\<close> in this order;
  \<^verbatim>\<open>to_dense\<close> of them is their Kronecker product in qubit order (its entry at
  \<open>(i, j)\<close> is the product over the qubits \<open>k\<close> of the entry of operator \<open>k\<close> at the bits of
  qubit \<open>k\<close> in \<open>i\<close> and \<open>j\<close>), a \<open>2\<^sup>n \<times> 2\<^sup>n\<close> matrix that is zero off the diagonal and whose
  diagonal entries have modulus one.
\<close>

theorem C4_phase_diagonal_builder:
  assumes "0 < length u" and "length v = length u"
  shows "phase_shifts_to_tensor_product_space u v
           = Some (map (\<lambda>k. phase_gate (u ! k) (v ! k)) [0..<length u])
       \<and> to_dense (map (\<lambda>k. phase_gate (u ! k) (v ! k)) [0..<length u])
           = spec_phase_diagonal u v
       \<and> (i < 2 ^ length u \<and> j < 2 ^ length u \<longrightarrow>
            spec_phase_diagonal u v ! i ! j
            = (\<Prod>k<length u. phase_gate (u ! k) (v ! k)
                 ! qubit_bit (length u) k i ! qubit_bit (length u) k j))
       \<and> unit_diagonal (2 ^ length u) (spec_phase_diagonal u v)"
proof -
  let ?ops = "map (\<lambda>k. phase_gate (u ! k) (v ! k)) [0..<length u]"
  have ne: "?ops \<noteq> []" using assms(1) by simp
  have all: "list_all (unit_diagonal 2) ?ops" by (simp add: list_all_iff unit_diagonal_phase_gate)
  from unit_diagonal_kron_list [OF ne all] phase_shifts_Some [OF assms]
  show ?thesis by (simp add: to_dense_def spec_phase_diagonal_def spec_phase_diagonal_entry [unfolded spec_phase_diagonal_def])
qed

theorem C4_phase_diagonal_builder_witness:
  "0 < length [- 3 :: real] \<and> length [100 :: real] = length [- 3 :: real]
   \<and> (1::nat) < 2 ^ length [- 3 :: real]
   \<and> phase_shifts_to_tensor_product_space [- 3] [100] = Some [phase_gate (- 3) 100]
   \<and> spec_phase_diagonal [- 3] [100] ! 1 ! 1 = phase_gate (- 3) 100 ! 1 ! 1
   \<and> unit_diagonal 2 (spec_phase_diagonal [- 3] [100])"
  using C4_phase_diagonal_builder [of "[- 3]" "[100]" 1 1] by (simp add: qubit_bit_def)

section \<open>The entangling layer\<close>

lemma of_nat_pow2_eq: "0 \<le> n \<Longrightarrow> (of_nat (2 ^ nat n) :: rat) = py_pow2 n"
  by (simp add: py_pow2_def)

lemma cphase_ops_spec:
  assumes "1 \<le> n" and "parity = 0 \<or> parity = 1"
  shows "cphase_ops K (CPhaseLayer_init n parity use_standard)
         = spec_entangling_blocks K (nat n) (nat parity) use_standard"
proof -
  have d: "nat (n div 2) = nat n div 2" "nat ((n - 1) div 2) = (nat n - 1) div 2"
    using assms(1) by (simp_all add: nat_div_distrib nat_diff_distrib)
  have o: "2 * (n div 2) < n \<longleftrightarrow> odd (nat n)"
    using assms(1) by (simp add: even_nat_iff) presburger
  have e: "2 * ((n - 1) div 2) + 1 < n \<longleftrightarrow> odd (nat n - 1)"
    using assms(1) by (simp add: even_nat_iff nat_diff_distrib') presburger
  from assms(2) show ?thesis
  proof
    assume "parity = 0"
    then show ?thesis
      by (simp add: cphase_ops_def spec_entangling_blocks_def CPhaseLayer_init_def
          get_cphase_gate_def Let_def d o)
  next
    assume "parity = 1"
    then show ?thesis
      by (simp add: cphase_ops_def spec_entangling_blocks_def CPhaseLayer_init_def
          get_cphase_gate_def Let_def d e)
  qed
qed

lemma CPhase_build_init:
  assumes "0 \<le> n"
  shows "CPhase_build K (CPhaseLayer_init n parity use_standard) (2 ^ nat n)
         = Some ((CPhaseLayer_init n parity use_standard)
             \<lparr>transfer_matrix := Some (tensors (cphase_ops K (CPhaseLayer_init n parity use_standard)))\<rparr>)"
  using assms by (simp add: CPhase_build_def CPhaseLayer_init_def py_pow2_def)

text \<open>
  C3: for \<open>n \<ge> 1\<close> qubits the list \<^verbatim>\<open>ops\<close> of \<^verbatim>\<open>CPhaseLayer.build\<close> is the block
  list of the specification (parity 0: \<open>n div 2\<close> gates, then an identity iff \<open>n\<close> is odd;
  parity 1: an identity, \<open>(n - 1) div 2\<close> gates, then an identity iff a qubit remains
  unpaired), and the stored transfer matrix is the Kronecker product of this list. For
  \<open>n = 3\<close> it is \<open>kron(gate, IDENTITY)\<close> at parity 0 and \<open>kron(IDENTITY, gate)\<close> at parity
  1, the gate being \<open>CPHASE\<close> or \<open>CPHASE_MOD\<close> as the flag says.
\<close>

theorem C3_entangling_blocks:
  assumes "1 \<le> n" and "parity = 0 \<or> parity = 1"
  shows "cphase_ops K (CPhaseLayer_init n parity use_standard)
           = spec_entangling_blocks K (nat n) (nat parity) use_standard
       \<and> CPhase_build K (CPhaseLayer_init n parity use_standard) (2 ^ nat n)
           = Some ((CPhaseLayer_init n parity use_standard)
               \<lparr>transfer_matrix :=
                  Some (kron_list (spec_entangling_blocks K (nat n) (nat parity) use_standard))\<rparr>)
       \<and> kron_list (spec_entangling_blocks K 3 0 use_standard)
           = kron (if use_standard then CPHASE K else CPHASE_MOD K) (IDENTITY K)
       \<and> kron_list (spec_entangling_blocks K 3 1 use_standard)
           = kron (IDENTITY K) (if use_standard then CPHASE K else CPHASE_MOD K)"
proof -
  have n0: "0 \<le> n" using assms(1) by simp
  have three: "replicate (3 div 2) g = [g]" for g :: cmat
    by (simp add: numeral_3_eq_3)
  show ?thesis
    using cphase_ops_spec [OF assms] CPhase_build_init [OF n0, of K parity use_standard]
    by (simp add: tensors_def spec_entangling_blocks_def three)
qed

theorem C3_entangling_blocks_witness:
  "(1::int) \<le> 3 \<and> ((1::int) = 0 \<or> (1::int) = 1)
   \<and> cphase_ops example_constants (CPhaseLayer_init 3 1 True)
       = [IDENTITY example_constants, CPHASE example_constants]
   \<and> CPhase_build example_constants (CPhaseLayer_init 3 1 True) 8
       = Some ((CPhaseLayer_init 3 1 True)
           \<lparr>transfer_matrix := Some (kron (IDENTITY example_constants) (CPHASE example_constants))\<rparr>)"
  using C3_entangling_blocks [of 3 1 example_constants True]
  by (simp add: spec_entangling_blocks_def)


lemma kron_identity_2_2: "kron (identity_mat 2) (identity_mat 2) = identity_mat 4"
  by (simp add: kron_def kron_row_def identity_mat_def upt_2 upt_4)

lemma ctensor_eq: "width x = d \<Longrightarrow> \<lparr>width = d, rows = rows x\<rparr> = (x :: ctensor)"
  by auto

lemma dot_identity:
  assumes "ctensor_ok x" "width x = d" "0 < d"
  shows "dot (Cplx x) (identity_mat d) = Some (Cplx x)"
proof -
  have r: "list_all (\<lambda>r. length r = d) (rows x)" using assms by (simp add: ctensor_ok_def)
  from dot_Cplx [OF is_mat_identity assms(3) assms(2)] mat_mul_identity [OF r assms(3)] assms(2)
  show ?thesis by (simp add: ctensor_eq)
qed

lemma cphase_ops_one: "cphase_ops K (CPhaseLayer_init 1 parity use_standard) = [IDENTITY K]"
  by (simp add: cphase_ops_def CPhaseLayer_init_def Let_def)

lemma cphase_ops_two:
  "parity \<noteq> 0 \<Longrightarrow> cphase_ops K (CPhaseLayer_init 2 parity use_standard) = [IDENTITY K, IDENTITY K]"
  by (simp add: cphase_ops_def CPhaseLayer_init_def Let_def)

text \<open>
  C10: with one qubit, at either parity, and with two qubits at parity 1, the list
  \<^verbatim>\<open>ops\<close> of \<^verbatim>\<open>CPhaseLayer.build\<close> holds identities only; with \<open>IDENTITY\<close> the
  \<open>2 \<times> 2\<close> identity, the stored transfer matrix is the identity of dimension \<open>2\<^sup>n\<close> and
  applying the layer to a batch of that width returns the batch unchanged.
\<close>

theorem C10_no_gate_layers:
  assumes I: "IDENTITY K = identity_mat 2"
    and x: "ctensor_ok x" and y: "ctensor_ok y"
    and wx: "width x = 2" and wy: "width y = 4"
  shows "cphase_ops K (CPhaseLayer_init 1 parity use_standard) = [IDENTITY K]
       \<and> cphase_ops K (CPhaseLayer_init 2 1 use_standard) = [IDENTITY K, IDENTITY K]
       \<and> CPhase_apply K (CPhaseLayer_init 1 parity use_standard) (Cplx x)
           = Some (Cplx x, (CPhaseLayer_init 1 parity use_standard)
               \<lparr>transfer_matrix := Some (identity_mat 2)\<rparr>)
       \<and> CPhase_apply K (CPhaseLayer_init 2 1 use_standard) (Cplx y)
           = Some (Cplx y, (CPhaseLayer_init 2 1 use_standard)
               \<lparr>transfer_matrix := Some (identity_mat 4)\<rparr>)"
proof -
  have b1: "CPhase_build K (CPhaseLayer_init 1 parity use_standard) 2
      = Some ((CPhaseLayer_init 1 parity use_standard)\<lparr>transfer_matrix := Some (identity_mat 2)\<rparr>)"
    using CPhase_build_init [of 1 K parity use_standard]
    by (simp add: cphase_ops_one tensors_def I)
  have b2: "CPhase_build K (CPhaseLayer_init 2 1 use_standard) 4
      = Some ((CPhaseLayer_init 2 1 use_standard)\<lparr>transfer_matrix := Some (identity_mat 4)\<rparr>)"
    using CPhase_build_init [of 2 K 1 use_standard]
    by (simp add: cphase_ops_two tensors_def I kron_identity_2_2)
  have a1: "CPhase_apply K (CPhaseLayer_init 1 parity use_standard) (Cplx x)
      = Some (Cplx x, (CPhaseLayer_init 1 parity use_standard)\<lparr>transfer_matrix := Some (identity_mat 2)\<rparr>)"
    using b1 dot_identity [OF x wx]
    by (simp add: CPhase_apply_def CPhase_call_def CPhaseLayer_init_def wx)
  have a2: "CPhase_apply K (CPhaseLayer_init 2 1 use_standard) (Cplx y)
      = Some (Cplx y, (CPhaseLayer_init 2 1 use_standard)\<lparr>transfer_matrix := Some (identity_mat 4)\<rparr>)"
    using b2 dot_identity [OF y wy]
    by (simp add: CPhase_apply_def CPhase_call_def CPhaseLayer_init_def wy)
  show ?thesis using a1 a2 by (simp add: cphase_ops_one cphase_ops_two)
qed

theorem C10_no_gate_layers_witness:
  "IDENTITY example_constants = identity_mat 2
   \<and> ctensor_ok \<lparr>width = 2, rows = [[1, 0]]\<rparr>
   \<and> ctensor_ok \<lparr>width = 4, rows = [[0, 0, 1, 0]]\<rparr>
   \<and> cphase_ops example_constants (CPhaseLayer_init 2 1 True)
       = [IDENTITY example_constants, IDENTITY example_constants]
   \<and> CPhase_apply example_constants (CPhaseLayer_init 1 0 True) (Cplx \<lparr>width = 2, rows = [[1, 0]]\<rparr>)
       = Some (Cplx \<lparr>width = 2, rows = [[1, 0]]\<rparr>,
           (CPhaseLayer_init 1 0 True)\<lparr>transfer_matrix := Some (identity_mat 2)\<rparr>)
   \<and> CPhase_apply example_constants (CPhaseLayer_init 2 1 True)
         (Cplx \<lparr>width = 4, rows = [[0, 0, 1, 0]]\<rparr>)
       = Some (Cplx \<lparr>width = 4, rows = [[0, 0, 1, 0]]\<rparr>,
           (CPhaseLayer_init 2 1 True)\<lparr>transfer_matrix := Some (identity_mat 4)\<rparr>)"
proof -
  have I: "IDENTITY example_constants = identity_mat 2"
    by (simp add: example_constants_def identity_mat_def upt_2)
  have x: "ctensor_ok \<lparr>width = 2, rows = [[1, 0]]\<rparr>" by (simp add: ctensor_ok_def)
  have y: "ctensor_ok \<lparr>width = 4, rows = [[0, 0, 1, 0]]\<rparr>" by (simp add: ctensor_ok_def)
  from C10_no_gate_layers [OF I x y, of 0 True] I x y show ?thesis by simp
qed

lemma pow4_half: "4 ^ (n div 2) * (if odd n then 2 else 1) = (2 ^ n :: nat)"
proof -
  have "(4::nat) ^ (n div 2) = 2 ^ (2 * (n div 2))" by (simp add: power_mult)
  moreover have "n = 2 * (n div 2) + (if odd n then 1 else 0)" by (auto elim: oddE)
  ultimately have "(2 ^ n :: nat) = 4 ^ (n div 2) * 2 ^ (if odd n then 1 else 0)"
    by (metis power_add)
  then show ?thesis by (simp split: if_splits)
qed

lemma prod_block_dims: "1 \<le> n \<Longrightarrow> prod_list (block_dims n parity) = 2 ^ n"
proof (cases "parity = 0")
  case True
  then show ?thesis using pow4_half [of n] by (auto simp: block_dims_def)
next
  case False
  assume "1 \<le> n"
  then obtain m where n: "n = Suc m" by (cases n) auto
  from False show ?thesis using pow4_half [of m] by (auto simp: block_dims_def n)
qed

lemma list_all2_append_replicate:
  "list_all2 P (replicate k a) (replicate k b) \<longleftrightarrow> k = 0 \<or> P a b"
  by (auto simp: list_all2_conv_all_nth)

lemma entangling_blocks_shape:
  assumes "P 2 (IDENTITY K)" "P 4 (CPHASE K)" "P 4 (CPHASE_MOD K)"
  shows "list_all2 P (block_dims n parity) (spec_entangling_blocks K n parity use_standard)"
  using assms
  by (auto simp: block_dims_def spec_entangling_blocks_def Let_def list_all2_append_replicate
      intro!: list_all2_appendI)

lemma is_mat_entangling:
  assumes "constants_ok K" "1 \<le> n"
  shows "is_mat (2 ^ n) (2 ^ n) (kron_list (spec_entangling_blocks K n parity use_standard))"
  using is_mat_kron_list [OF entangling_blocks_shape [of "\<lambda>d M. is_mat d d M" K n parity use_standard]]
    assms by (simp add: constants_ok_def prod_block_dims)

lemma unitary_entangling:
  assumes "constants_unitary K" "1 \<le> n"
  shows "unitary (2 ^ n) (kron_list (spec_entangling_blocks K n parity use_standard))"
  using unitary_kron_list [OF entangling_blocks_shape [of unitary K n parity use_standard]]
    assms by (simp add: constants_unitary_def prod_block_dims)

section \<open>The single-qubit layer\<close>

lemma length_initial_weight [simp]: "length (initial_weight L w) = nat (sq_num_qubits L)"
  by (simp add: initial_weight_def)

lemma zeros_like_replicate: "zeros_like v = replicate (length v) 0"
  by (simp add: zeros_like_def map_replicate_const)

lemma add_weight_Some:
  "0 \<le> sq_num_qubits L \<Longrightarrow> add_weight (sq_num_qubits L) (sq_draws L w) = Some (initial_weight L w)"
  by (simp add: add_weight_def initial_weight_def)

lemma phase_shifts_dense:
  assumes "0 < length u" "length v = length u"
  shows "phase_shifts_to_tensor_product_space u v = Some ops \<Longrightarrow> to_dense ops = spec_phase_diagonal u v"
  using phase_shifts_Some [OF assms] by (auto simp: to_dense_def spec_phase_diagonal_def)

lemma SingleQubit_build_Some:
  assumes n: "1 \<le> sq_num_qubits L" and od: "sq_output_dim L = py_pow2 (sq_num_qubits L)"
  shows "SingleQubit_build K L (2 ^ nat (sq_num_qubits L)) = Some (built_single_qubit K L)"
proof -
  let ?n = "nat (sq_num_qubits L)"
  have n0: "0 \<le> sq_num_qubits L" and pos: "0 < ?n" using n by simp_all
  have dim: "(of_nat (2 ^ ?n) :: rat) = sq_output_dim L" using n0 od by (simp add: py_pow2_def)
  have ps: "phase_shifts_to_tensor_product_space (initial_weight L i) (initial_weight L j)
      = Some (map (\<lambda>k. phase_gate (initial_weight L i ! k) (initial_weight L j ! k)) [0..<?n])" for i j
    using phase_shifts_Some [of "initial_weight L i" "initial_weight L j"] pos by simp
  have pz: "phase_shifts_to_tensor_product_space (initial_weight L i) (replicate ?n 0)
      = Some (map (\<lambda>k. phase_gate (initial_weight L i ! k) (replicate ?n 0 ! k)) [0..<?n])" for i
    using phase_shifts_Some [of "initial_weight L i" "replicate ?n 0"] pos by simp
  show ?thesis
    unfolding SingleQubit_build_def
    using dim
    by (simp add: add_weight_Some [OF n0] zeros_like_replicate ps pz to_dense_def
        spec_phase_diagonal_def built_single_qubit_def Let_def tensors_def spec_beam_splitter_def
        del: of_nat_power of_nat_numeral)
qed

lemma list_all2_replicate: "P a b \<Longrightarrow> list_all2 P (replicate n a) (replicate n b)"
  by (simp add: list_all2_conv_all_nth)

lemma is_mat_beam_splitter:
  "is_mat 2 2 (BS_MATRIX K) \<Longrightarrow> is_mat (2 ^ n) (2 ^ n) (spec_beam_splitter K n)"
  using is_mat_kron_list [of "replicate n 2" "replicate n (BS_MATRIX K)"]
  by (simp add: spec_beam_splitter_def list_all2_replicate)

lemma unitary_beam_splitter:
  "unitary 2 (BS_MATRIX K) \<Longrightarrow> unitary (2 ^ n) (spec_beam_splitter K n)"
  using unitary_kron_list [of "replicate n 2" "replicate n (BS_MATRIX K)"]
  by (simp add: spec_beam_splitter_def list_all2_replicate)

lemma unit_diagonal_spec_phase:
  assumes "0 < length u"
  shows "unit_diagonal (2 ^ length u) (spec_phase_diagonal u v)"
proof -
  let ?ops = "map (\<lambda>k. phase_gate (u ! k) (v ! k)) [0..<length u]"
  have ne: "?ops \<noteq> []" using assms by simp
  have all: "list_all (unit_diagonal 2) ?ops" by (simp add: list_all_iff unit_diagonal_phase_gate)
  from unit_diagonal_kron_list [OF ne all] show ?thesis by (simp add: spec_phase_diagonal_def)
qed

lemma is_mat_spec_phase:
  "0 < length u \<Longrightarrow> is_mat (2 ^ length u) (2 ^ length u) (spec_phase_diagonal u v)"
  by (rule unit_diagonal_is_mat [OF unit_diagonal_spec_phase])

lemma SingleQubit_call_built:
  assumes n: "1 \<le> sq_num_qubits L" and bs: "is_mat 2 2 (BS_MATRIX K)"
    and w: "width x = 2 ^ nat (sq_num_qubits L)"
  shows "SingleQubit_call (built_single_qubit K L) (Cplx x)
         = Some (Cplx \<lparr>width = 2 ^ nat (sq_num_qubits L),
              rows = spec_single_qubit_forward K (initial_weight L 0) (initial_weight L 1)
                       (initial_weight L 2) (initial_weight L 3) (rows x)\<rparr>)"
proof -
  let ?n = "nat (sq_num_qubits L)"
  let ?d = "2 ^ ?n :: nat"
  have pos: "0 < ?n" using n by simp
  have d: "0 < ?d" by simp
  have P: "is_mat ?d ?d (spec_phase_diagonal (initial_weight L i) v)" for i v
    using is_mat_spec_phase [of "initial_weight L i" v] pos by simp
  have B: "is_mat ?d ?d (spec_beam_splitter K ?n)" by (rule is_mat_beam_splitter [OF bs])
  show ?thesis
    unfolding SingleQubit_call_def built_single_qubit_def Let_def spec_single_qubit_forward_def
    by (simp add: dot_Cplx [OF P d] dot_Cplx [OF B d] w del: dot.simps)
qed

lemma SingleQubit_apply_fresh:
  assumes n: "1 \<le> sq_num_qubits L" and od: "sq_output_dim L = py_pow2 (sq_num_qubits L)"
    and st: "sq_state L = None"
    and bs: "is_mat 2 2 (BS_MATRIX K)"
    and w: "width x = 2 ^ nat (sq_num_qubits L)"
  shows "SingleQubit_apply K L (Cplx x)
         = Some (Cplx \<lparr>width = 2 ^ nat (sq_num_qubits L),
              rows = spec_single_qubit_forward K (initial_weight L 0) (initial_weight L 1)
                       (initial_weight L 2) (initial_weight L 3) (rows x)\<rparr>,
            built_single_qubit K L)"
  unfolding SingleQubit_apply_def
  by (simp add: st w SingleQubit_build_Some [OF n od] SingleQubit_call_built [OF n bs w])

lemma initial_weight_init:
  "initial_weight (SingleQubitOperationLayer_init draws n) w = map (draws w) [0..<nat n]"
  by (simp add: initial_weight_def SingleQubitOperationLayer_init_def)

text \<open>
  C2: a Single-Qubit Layer on \<open>n \<ge> 1\<close> qubits, applied to a complex batch \<open>x\<close> of width
  \<open>2\<^sup>n\<close>, returns \<open>x\<close> multiplied from the right by \<open>P(\<alpha>, \<beta>)\<close>, \<open>B\<close>, \<open>P(\<theta>, 0)\<close>, \<open>B\<close>,
  \<open>P(\<phi>, 0)\<close> in this order, where \<open>\<alpha>, \<beta>, \<theta>, \<phi>\<close> are the weights of the layer and \<open>B\<close> is
  the Kronecker power of the beam-splitter constant (a \<open>2 \<times> 2\<close> matrix). This is the result
  of the first application, which builds the layer, and of \<^verbatim>\<open>call\<close> on the built layer.
\<close>

theorem C2_single_qubit_forward:
  assumes "1 \<le> n" and "is_mat 2 2 (BS_MATRIX K)" and "width x = 2 ^ nat n"
  shows "SingleQubit_apply K (SingleQubitOperationLayer_init draws n) (Cplx x)
           = Some (Cplx \<lparr>width = 2 ^ nat n,
                rows = spec_single_qubit_forward K
                         (map (draws 0) [0..<nat n]) (map (draws 1) [0..<nat n])
                         (map (draws 2) [0..<nat n]) (map (draws 3) [0..<nat n]) (rows x)\<rparr>,
              built_single_qubit K (SingleQubitOperationLayer_init draws n))
       \<and> SingleQubit_call (built_single_qubit K (SingleQubitOperationLayer_init draws n)) (Cplx x)
           = Some (Cplx \<lparr>width = 2 ^ nat n,
                rows = spec_single_qubit_forward K
                         (map (draws 0) [0..<nat n]) (map (draws 1) [0..<nat n])
                         (map (draws 2) [0..<nat n]) (map (draws 3) [0..<nat n]) (rows x)\<rparr>)
       \<and> map_option alphas (sq_state (built_single_qubit K (SingleQubitOperationLayer_init draws n)))
           = Some (map (draws 0) [0..<nat n])
       \<and> map_option betas (sq_state (built_single_qubit K (SingleQubitOperationLayer_init draws n)))
           = Some (map (draws 1) [0..<nat n])
       \<and> map_option thetas (sq_state (built_single_qubit K (SingleQubitOperationLayer_init draws n)))
           = Some (map (draws 2) [0..<nat n])
       \<and> map_option phis (sq_state (built_single_qubit K (SingleQubitOperationLayer_init draws n)))
           = Some (map (draws 3) [0..<nat n])"
proof -
  let ?L = "SingleQubitOperationLayer_init draws n"
  have q: "sq_num_qubits ?L = n" and od: "sq_output_dim ?L = py_pow2 (sq_num_qubits ?L)"
    and st: "sq_state ?L = None"
    by (simp_all add: SingleQubitOperationLayer_init_def)
  have n': "1 \<le> sq_num_qubits ?L" and w: "width x = 2 ^ nat (sq_num_qubits ?L)"
    using assms q by simp_all
  from SingleQubit_apply_fresh [OF n' od st assms(2) w] SingleQubit_call_built [OF n' assms(2) w]
  show ?thesis
    by (simp add: q initial_weight_init built_single_qubit_def Let_def)
qed

theorem C2_single_qubit_forward_witness:
  "(1::int) \<le> 1 \<and> is_mat 2 2 (BS_MATRIX example_constants)
   \<and> width \<lparr>width = 2, rows = [[1, 0]]\<rparr> = 2 ^ nat 1
   \<and> SingleQubit_call (built_single_qubit example_constants
         (SingleQubitOperationLayer_init (\<lambda>w k. 0) 1)) (Cplx \<lparr>width = 2, rows = [[1, 0]]\<rparr>)
       = Some (Cplx \<lparr>width = 2,
            rows = spec_single_qubit_forward example_constants [0] [0] [0] [0] [[1, 0]]\<rparr>)"
proof -
  have bs: "is_mat 2 2 (BS_MATRIX example_constants)"
    using example_constants_ok by (simp add: constants_ok_def)
  from C2_single_qubit_forward [of 1 example_constants "\<lparr>width = 2, rows = [[1, 0]]\<rparr>" "\<lambda>w k. 0"] bs
  show ?thesis by simp
qed











text \<open>
  The beam-splitter constant has to be a \<open>2 \<times> 2\<close> matrix: with a \<open>4 \<times> 4\<close> constant the
  stored matrix \<open>B\<close> has \<open>4\<^sup>n\<close> rows and the second product of \<^verbatim>\<open>call\<close> raises.
\<close>

lemma SingleQubit_apply_wide_beam_splitter:
  assumes n: "1 \<le> n" and bs: "is_mat 4 4 (BS_MATRIX K)" and w: "width x = 2 ^ nat n"
  shows "SingleQubit_apply K (SingleQubitOperationLayer_init draws n) (Cplx x) = None"
proof -
  let ?L = "SingleQubitOperationLayer_init draws n"
  let ?d = "2 ^ nat n :: nat"
  have q: "sq_num_qubits ?L = n" "sq_output_dim ?L = py_pow2 (sq_num_qubits ?L)" "sq_state ?L = None"
    by (simp_all add: SingleQubitOperationLayer_init_def)
  have n': "1 \<le> sq_num_qubits ?L" using n q by simp
  have pos: "0 < nat n" using n by simp
  have b: "SingleQubit_build K ?L ?d = Some (built_single_qubit K ?L)"
    using SingleQubit_build_Some [OF n' q(2)] q(1) by simp
  have P: "is_mat ?d ?d (spec_phase_diagonal (initial_weight ?L 0) (initial_weight ?L 1))"
    using is_mat_spec_phase [of "initial_weight ?L 0" "initial_weight ?L 1"] pos q(1) by simp
  have "is_mat (4 ^ nat n) (4 ^ nat n) (spec_beam_splitter K (nat n))"
    using is_mat_kron_list [of "replicate (nat n) 4" "replicate (nat n) (BS_MATRIX K)"] bs
    by (simp add: spec_beam_splitter_def list_all2_replicate)
  then have lB: "length (spec_beam_splitter K (nat n)) = 4 ^ nat n" by (rule is_mat_length)
  from pos obtain m where m: "nat n = Suc m" by (cases "nat n") auto
  have "(1::nat) \<le> 2 ^ m" by simp
  then have "(1::nat) < 2 * 2 ^ m" by linarith
  then have "(1::nat) < 2 ^ nat n" unfolding m by simp
  then have "(2::nat) ^ nat n < 2 ^ nat n * 2 ^ nat n" by simp
  then have ne: "(2::nat) ^ nat n \<noteq> 4 ^ nat n"
    by (simp add: power_mult_distrib [symmetric])
  have "SingleQubit_call (built_single_qubit K ?L) (Cplx x) = None"
    unfolding SingleQubit_call_def built_single_qubit_def Let_def
    using dot_Cplx [OF P _ w] ne lB
    by (simp add: q(1) is_mat_ncols [OF P] del: dot.simps) simp
  with b show ?thesis by (simp add: SingleQubit_apply_def q(3) w)
qed

section \<open>The circuit\<close>

lemma unitary_phase_gate: "unitary 2 (phase_gate a b)"
  by (simp add: unitary_def phase_gate_def is_mat_def upt_2 complex_eq_iff)

lemma unitary_spec_phase: "unitary (2 ^ length u) (spec_phase_diagonal u v)"
proof -
  have "list_all2 unitary (replicate (length u) 2)
      (map (\<lambda>k. phase_gate (u ! k) (v ! k)) [0..<length u])"
    by (simp add: list_all2_conv_all_nth unitary_phase_gate)
  from unitary_kron_list [OF this] show ?thesis by (simp add: spec_phase_diagonal_def)
qed

lemma is_mat_single_qubit_factors:
  assumes "0 < n" "length a = n" "length t = n" "length p = n" "is_mat 2 2 (BS_MATRIX K)"
  shows "is_mat (2 ^ n) (2 ^ n) (spec_phase_diagonal a b)"
    and "is_mat (2 ^ n) (2 ^ n) (spec_phase_diagonal t z)"
    and "is_mat (2 ^ n) (2 ^ n) (spec_phase_diagonal p z)"
    and "is_mat (2 ^ n) (2 ^ n) (spec_beam_splitter K n)"
  using assms is_mat_spec_phase [of a b] is_mat_spec_phase [of t z] is_mat_spec_phase [of p z]
    is_mat_beam_splitter [of K n]
  by simp_all

lemma spec_forward_as_product:
  assumes "0 < n" "length a = n" "length t = n" "length p = n" "is_mat 2 2 (BS_MATRIX K)"
  shows "spec_single_qubit_forward K a b t p X = mat_mul X (spec_single_qubit_matrix K a b t p)"
proof -
  let ?d = "2 ^ n :: nat"
  let ?z = "replicate n 0 :: real list"
  note f = is_mat_single_qubit_factors [OF assms]
  have d: "0 < ?d" by simp
  let ?P1 = "spec_phase_diagonal a b" and ?B = "spec_beam_splitter K n"
  let ?P2 = "spec_phase_diagonal t ?z" and ?P3 = "spec_phase_diagonal p ?z"
  have m1: "is_mat ?d ?d (mat_mul ?P1 ?B)" by (rule is_mat_mat_mul_sq [OF f(1) f(4) d])
  have m2: "is_mat ?d ?d (mat_mul (mat_mul ?P1 ?B) ?P2)" by (rule is_mat_mat_mul_sq [OF m1 f(2) d])
  have m3: "is_mat ?d ?d (mat_mul (mat_mul (mat_mul ?P1 ?B) ?P2) ?B)"
    by (rule is_mat_mat_mul_sq [OF m2 f(4) d])
  have "mat_mul (mat_mul (mat_mul (mat_mul (mat_mul X ?P1) ?B) ?P2) ?B) ?P3
      = mat_mul X (mat_mul (mat_mul (mat_mul (mat_mul ?P1 ?B) ?P2) ?B) ?P3)"
    by (simp only: mat_mul_assoc [OF f(1) f(4) d d] mat_mul_assoc [OF m1 f(2) d d]
        mat_mul_assoc [OF m2 f(4) d d] mat_mul_assoc [OF m3 f(3) d d])
  then show ?thesis
    by (simp add: spec_single_qubit_forward_def spec_single_qubit_matrix_def Let_def assms)
qed

lemma is_mat_single_qubit_matrix:
  assumes "0 < n" "length a = n" "length t = n" "length p = n" "is_mat 2 2 (BS_MATRIX K)"
  shows "is_mat (2 ^ n) (2 ^ n) (spec_single_qubit_matrix K a b t p)"
proof -
  note f = is_mat_single_qubit_factors [OF assms]
  have d: "0 < (2 ^ n :: nat)" by simp
  show ?thesis
    unfolding spec_single_qubit_matrix_def Let_def assms(2)
    by (intro is_mat_mat_mul_sq f d)
qed

lemma unitary_single_qubit_matrix:
  assumes "0 < n" "length a = n" "length t = n" "length p = n" "unitary 2 (BS_MATRIX K)"
  shows "unitary (2 ^ n) (spec_single_qubit_matrix K a b t p)"
proof -
  have d: "0 < (2 ^ n :: nat)" by simp
  have u: "unitary (2 ^ n) (spec_phase_diagonal a b)"
    "unitary (2 ^ n) (spec_phase_diagonal t z)" "unitary (2 ^ n) (spec_phase_diagonal p z)" for z
    using unitary_spec_phase [of a b] unitary_spec_phase [of t z] unitary_spec_phase [of p z] assms
    by simp_all
  have B: "unitary (2 ^ n) (spec_beam_splitter K n)" by (rule unitary_beam_splitter [OF assms(5)])
  show ?thesis
    unfolding spec_single_qubit_matrix_def Let_def assms(2)
    by (intro unitary_mat_mul u B d)
qed

lemma is_mat_layer_matrix:
  "0 < n \<Longrightarrow> is_mat 2 2 (BS_MATRIX K) \<Longrightarrow> is_mat (2 ^ n) (2 ^ n) (spec_layer_matrix K draws n)"
  by (simp add: spec_layer_matrix_def is_mat_single_qubit_matrix)

lemma unitary_layer_matrix:
  "0 < n \<Longrightarrow> unitary 2 (BS_MATRIX K) \<Longrightarrow> unitary (2 ^ n) (spec_layer_matrix K draws n)"
  by (simp add: spec_layer_matrix_def unitary_single_qubit_matrix)

lemma built_single_qubit_fields [simp]:
  "sq_num_qubits (built_single_qubit K L) = sq_num_qubits L"
  "sq_output_dim (built_single_qubit K L) = sq_output_dim L"
  "sq_draws (built_single_qubit K L) = sq_draws L"
  "sq_state (built_single_qubit K L) \<noteq> None"
  by (simp_all add: built_single_qubit_def Let_def)

lemma initial_weight_built [simp]:
  "initial_weight (built_single_qubit K L) w = initial_weight L w"
  by (simp add: initial_weight_def)

lemma built_single_qubit_idem [simp]:
  "built_single_qubit K (built_single_qubit K L) = built_single_qubit K L"
  by (simp add: built_single_qubit_def Let_def initial_weight_def)

lemma sq_ready_built_eq:
  "sq_state L = sq_state (built_single_qubit K L) \<Longrightarrow> built_single_qubit K L = L"
  by (simp add: built_single_qubit_def Let_def)

lemma sq_ready_built: "sq_ready K n L \<Longrightarrow> sq_ready K n (built_single_qubit K L)"
  by (simp add: sq_ready_def)

lemma sq_matrix_built [simp]: "sq_matrix K (built_single_qubit K L) = sq_matrix K L"
  by (simp add: sq_matrix_def)

lemma SingleQubit_apply_ready:
  assumes r: "sq_ready K n L" and n: "1 \<le> n" and bs: "is_mat 2 2 (BS_MATRIX K)"
    and w: "width x = 2 ^ nat n"
  shows "SingleQubit_apply K L (Cplx x)
         = Some (Cplx \<lparr>width = 2 ^ nat n, rows = mat_mul (rows x) (sq_matrix K L)\<rparr>,
                 built_single_qubit K L)"
proof -
  have q: "sq_num_qubits L = n" and od: "sq_output_dim L = py_pow2 (sq_num_qubits L)"
    using r by (simp_all add: sq_ready_def)
  have n': "1 \<le> sq_num_qubits L" and w': "width x = 2 ^ nat (sq_num_qubits L)"
    using n w q by simp_all
  have pos: "0 < nat n" using n by simp
  have fw: "spec_single_qubit_forward K (initial_weight L 0) (initial_weight L 1)
      (initial_weight L 2) (initial_weight L 3) (rows x) = mat_mul (rows x) (sq_matrix K L)"
    using spec_forward_as_product [OF pos _ _ _ bs, of "initial_weight L 0" "initial_weight L 2"
        "initial_weight L 3" "initial_weight L 1" "rows x"]
    by (simp add: q sq_matrix_def spec_layer_matrix_def initial_weight_def)
  show ?thesis
  proof (cases "sq_state L = None")
    case True
    show ?thesis using SingleQubit_apply_fresh [OF n' od True bs w', unfolded fw q] .
  next
    case False
    with r have "sq_state L = sq_state (built_single_qubit K L)" by (simp add: sq_ready_def)
    then have e: "built_single_qubit K L = L" by (rule sq_ready_built_eq)
    from SingleQubit_call_built [OF n' bs w', unfolded fw q e] False show ?thesis
      by (auto simp add: SingleQubit_apply_def e)
  qed
qed

lemma cphase_ops_fields:
  "cphase_ops K L
   = cphase_ops K (CPhaseLayer_init (cp_num_qubits L) (cp_parity L) (cp_use_standard_cphase L))"
  by (simp add: cphase_ops_def CPhaseLayer_init_def get_cphase_gate_def)

lemma cp_matrix_ready:
  assumes "cp_ready K n L" "1 \<le> n"
  shows "tensors (cphase_ops K L) = cp_matrix K L"
proof -
  from assms have "1 \<le> cp_num_qubits L" "cp_parity L = 0 \<or> cp_parity L = 1"
    by (simp_all add: cp_ready_def)
  from cphase_ops_spec [OF this] show ?thesis
    by (subst cphase_ops_fields)
       (simp add: tensors_def cp_matrix_def spec_entangling_matrix_def)
qed

lemma built_cphase_fields [simp]:
  "cp_num_qubits (built_cphase K L) = cp_num_qubits L"
  "cp_parity (built_cphase K L) = cp_parity L"
  "cp_use_standard_cphase (built_cphase K L) = cp_use_standard_cphase L"
  "cp_output_dim (built_cphase K L) = cp_output_dim L"
  by (simp_all add: built_cphase_def)

lemma cphase_ops_built [simp]: "cphase_ops K' (built_cphase K L) = cphase_ops K' L"
  by (simp add: cphase_ops_def get_cphase_gate_def)

lemma cp_matrix_built [simp]: "cp_matrix K' (built_cphase K L) = cp_matrix K' L"
  by (simp add: cp_matrix_def)

lemma built_cphase_idem [simp]: "built_cphase K (built_cphase K L) = built_cphase K L"
  by (simp add: built_cphase_def cphase_ops_def get_cphase_gate_def)

lemma cp_ready_built: "cp_ready K n L \<Longrightarrow> cp_ready K n (built_cphase K L)"
  by (simp add: cp_ready_def)

lemma is_mat_cp_matrix:
  assumes "cp_ready K n L" "1 \<le> n" "constants_ok K"
  shows "is_mat (2 ^ nat n) (2 ^ nat n) (cp_matrix K L)"
proof -
  have "1 \<le> nat n" using assms(2) by simp
  from is_mat_entangling [OF assms(3) this] assms(1) show ?thesis
    by (simp add: cp_matrix_def spec_entangling_matrix_def cp_ready_def)
qed

lemma CPhase_apply_ready:
  assumes r: "cp_ready K n L" and n: "1 \<le> n" and ok: "constants_ok K"
    and w: "width x = 2 ^ nat n"
  shows "CPhase_apply K L (Cplx x)
         = Some (Cplx \<lparr>width = 2 ^ nat n, rows = mat_mul (rows x) (cp_matrix K L)\<rparr>,
                 built_cphase K L)"
proof -
  have q: "cp_num_qubits L = n" and od: "cp_output_dim L = py_pow2 n"
    using r by (simp_all add: cp_ready_def)
  have n0: "0 \<le> n" using n by simp
  have M: "is_mat (2 ^ nat n) (2 ^ nat n) (cp_matrix K L)" by (rule is_mat_cp_matrix [OF r n ok])
  have d: "0 < (2 ^ nat n :: nat)" by simp
  have dim: "(of_nat (2 ^ nat n) :: rat) = cp_output_dim L" using n0 od by (simp add: py_pow2_def)
  have b: "CPhase_build K L (2 ^ nat n) = Some (built_cphase K L)"
    unfolding CPhase_build_def built_cphase_def using dim by (simp del: of_nat_power of_nat_numeral)
  have c: "CPhase_call (built_cphase K L) (Cplx x)
      = Some (Cplx \<lparr>width = 2 ^ nat n, rows = mat_mul (rows x) (cp_matrix K L)\<rparr>)"
    using dot_Cplx [OF M d w]
    by (simp add: CPhase_call_def built_cphase_def cp_matrix_ready [OF r n] del: dot.simps)
  show ?thesis
  proof (cases "transfer_matrix L = None")
    case True
    then show ?thesis by (simp add: CPhase_apply_def w b c del: dot.simps)
  next
    case False
    with r have "transfer_matrix L = transfer_matrix (built_cphase K L)" by (simp add: cp_ready_def)
    then have e: "built_cphase K L = L" by (simp add: built_cphase_def)
    from c False show ?thesis by (auto simp add: CPhase_apply_def e simp del: dot.simps)
  qed
qed

lemma pair_matrices_Cons:
  "pair_matrices K (l # ls) = cp_matrix K (fst l) # sq_matrix K (snd l) # pair_matrices K ls"
  by (simp add: pair_matrices_def)

lemma call_loop_ready:
  assumes "list_all (\<lambda>l. cp_ready K n (fst l) \<and> sq_ready K n (snd l)) ls"
    and n: "1 \<le> n" and ok: "constants_ok K" and "width x = 2 ^ nat n"
  shows "call_loop K ls (Cplx x)
         = Some (Cplx \<lparr>width = 2 ^ nat n, rows = foldl mat_mul (rows x) (pair_matrices K ls)\<rparr>,
                 built_pairs K ls)"
  using assms(1,4)
proof (induction ls arbitrary: x)
  case Nil
  then show ?case by (simp add: pair_matrices_def built_pairs_def)
next
  case (Cons l ls)
  obtain c s where l: "l = (c, s)" by (cases l)
  from Cons.prems l have c: "cp_ready K n c" and s: "sq_ready K n s"
    and rest: "list_all (\<lambda>l. cp_ready K n (fst l) \<and> sq_ready K n (snd l)) ls"
    by simp_all
  have bs: "is_mat 2 2 (BS_MATRIX K)" using ok by (simp add: constants_ok_def)
  let ?x1 = "\<lparr>width = 2 ^ nat n, rows = mat_mul (rows x) (cp_matrix K c)\<rparr> :: ctensor"
  let ?x2 = "\<lparr>width = 2 ^ nat n, rows = mat_mul (rows ?x1) (sq_matrix K s)\<rparr> :: ctensor"
  have a1: "CPhase_apply K c (Cplx x) = Some (Cplx ?x1, built_cphase K c)"
    by (rule CPhase_apply_ready [OF c n ok Cons.prems(2)])
  have a2: "SingleQubit_apply K s (Cplx ?x1) = Some (Cplx ?x2, built_single_qubit K s)"
    by (rule SingleQubit_apply_ready [OF s n bs]) simp
  have a3: "call_loop K ls (Cplx ?x2)
      = Some (Cplx \<lparr>width = 2 ^ nat n, rows = foldl mat_mul (rows ?x2) (pair_matrices K ls)\<rparr>,
              built_pairs K ls)"
    by (rule Cons.IH [OF rest]) simp
  show ?case
    unfolding l call_loop.simps a1
    using a2 a3 by (simp add: pair_matrices_Cons built_pairs_def)
qed

lemma zip_ready:
  "list_all (cp_ready K n) cs \<Longrightarrow> list_all (sq_ready K n) ss \<Longrightarrow>
   list_all (\<lambda>l. cp_ready K n (fst l) \<and> sq_ready K n (snd l)) (zip cs ss)"
  by (auto simp: list_all_iff dest: set_zip_leftD set_zip_rightD)

lemma is_mat_pair_matrices:
  assumes "list_all (\<lambda>l. cp_ready K n (fst l) \<and> sq_ready K n (snd l)) ls"
    and n: "1 \<le> n" and ok: "constants_ok K"
  shows "list_all (is_mat (2 ^ nat n) (2 ^ nat n)) (pair_matrices K ls)"
  using assms(1)
proof (induction ls)
  case Nil
  then show ?case by (simp add: pair_matrices_def)
next
  case (Cons l ls)
  have bs: "is_mat 2 2 (BS_MATRIX K)" using ok by (simp add: constants_ok_def)
  have pos: "0 < nat n" using n by simp
  from Cons.prems have c: "cp_ready K n (fst l)" and s: "sq_ready K n (snd l)" by simp_all
  have "is_mat (2 ^ nat n) (2 ^ nat n) (sq_matrix K (snd l))"
    using is_mat_layer_matrix [OF pos bs, of "sq_draws (snd l)"] s
    by (simp add: sq_matrix_def sq_ready_def)
  with is_mat_cp_matrix [OF c n ok] Cons show ?case by (simp add: pair_matrices_Cons)
qed

lemma is_mat_circuit_matrices:
  assumes "qpga_ready K q" "constants_ok K"
  shows "list_all (is_mat (2 ^ nat (num_qubits q)) (2 ^ nat (num_qubits q))) (circuit_matrices K q)"
proof -
  let ?n = "num_qubits q"
  have n: "1 \<le> ?n" and il: "sq_ready K ?n (input_layer q)"
    and z: "list_all (\<lambda>l. cp_ready K ?n (fst l) \<and> sq_ready K ?n (snd l))
        (zip (cphase_layers q) (single_qubit_layers q))"
    using assms(1) by (simp_all add: qpga_ready_def zip_ready)
  have bs: "is_mat 2 2 (BS_MATRIX K)" using assms(2) by (simp add: constants_ok_def)
  have pos: "0 < nat ?n" using n by simp
  have "is_mat (2 ^ nat ?n) (2 ^ nat ?n) (sq_matrix K (input_layer q))"
    using is_mat_layer_matrix [OF pos bs, of "sq_draws (input_layer q)"] il
    by (simp add: sq_matrix_def sq_ready_def)
  with is_mat_pair_matrices [OF z n assms(2)] show ?thesis by (simp add: circuit_matrices_def)
qed

lemma QPGA_call_ready:
  assumes r: "qpga_ready K q" and ok: "constants_ok K"
    and conv: "(if \<not> complex_inputs q then k_to_tf_complex inputs else Some inputs) = Some (Cplx x)"
    and x: "ctensor_ok x" and w: "width x = 2 ^ nat (num_qubits q)"
  shows "QPGA_call K q inputs
         = map_option (\<lambda>y. (y, built_circuit K q))
             (spec_output (complex_outputs q) (2 ^ nat (num_qubits q)) (rows x) (circuit_matrices K q))"
proof -
  let ?n = "num_qubits q"
  let ?d = "2 ^ nat ?n :: nat"
  let ?zs = "zip (cphase_layers q) (single_qubit_layers q)"
  have n: "1 \<le> ?n" and il: "sq_ready K ?n (input_layer q)"
    and z: "list_all (\<lambda>l. cp_ready K ?n (fst l) \<and> sq_ready K ?n (snd l)) ?zs"
    using r by (simp_all add: qpga_ready_def zip_ready)
  have bs: "is_mat 2 2 (BS_MATRIX K)" using ok by (simp add: constants_ok_def)
  let ?x1 = "\<lparr>width = ?d, rows = mat_mul (rows x) (sq_matrix K (input_layer q))\<rparr> :: ctensor"
  have a1: "SingleQubit_apply K (input_layer q) (Cplx x)
      = Some (Cplx ?x1, built_single_qubit K (input_layer q))"
    by (rule SingleQubit_apply_ready [OF il n bs w])
  have a2: "call_loop K ?zs (Cplx ?x1)
      = Some (Cplx \<lparr>width = ?d, rows = foldl mat_mul (rows ?x1) (pair_matrices K ?zs)\<rparr>,
              built_pairs K ?zs)"
    by (rule call_loop_ready [OF z n ok]) simp
  have rows_ok: "list_all (\<lambda>r. length r = ?d) (rows x)" using x w by (simp add: ctensor_ok_def)
  have prod: "foldl mat_mul (rows ?x1) (pair_matrices K ?zs)
      = mat_mul (rows x) (mat_product ?d (circuit_matrices K q))"
    using foldl_mat_product [OF is_mat_circuit_matrices [OF r ok] rows_ok]
    by (simp add: circuit_matrices_def)
  show ?thesis
    unfolding QPGA_call_def conv
    using a1 a2 prod
    by (cases "complex_outputs q") (simp_all add: spec_output_def built_circuit_def Let_def)
qed

lemma sq_ready_init: "sq_ready K n (SingleQubitOperationLayer_init draws n)"
  by (simp add: sq_ready_def SingleQubitOperationLayer_init_def)

lemma cp_ready_init: "cp_ready K n (CPhaseLayer_init n (int i mod 2) use_standard)"
  by (simp add: cp_ready_def CPhaseLayer_init_def) presburger

lemma sq_matrix_init:
  "sq_matrix K (SingleQubitOperationLayer_init draws n) = spec_layer_matrix K draws (nat n)"
  by (simp add: sq_matrix_def SingleQubitOperationLayer_init_def)

lemma cp_matrix_init:
  "cp_matrix K (CPhaseLayer_init n (int i mod 2) use_standard)
   = spec_entangling_matrix K (nat n) (i mod 2) use_standard"
  by (simp add: cp_matrix_def CPhaseLayer_init_def nat_mod_distrib)

lemma zip_map_upt: "zip (map f [0..<m]) (map g [0..<m]) = map (\<lambda>i. (f i, g i)) [0..<m]"
  by (simp add: zip_map_map zip_same_conv_map)

lemma QPGA_init_fields:
  assumes "QPGA_init draws n d c_in c_out use_standard = Some q"
  shows "num_qubits q = n" "depth q = d" "complex_inputs q = c_in" "complex_outputs q = c_out"
    "use_standard_cphase q = use_standard"
    "input_layer q = SingleQubitOperationLayer_init (draws 0) n"
    "single_qubit_layers q = map (\<lambda>i. SingleQubitOperationLayer_init (draws (Suc i)) n) [0..<nat d]"
    "cphase_layers q = map (\<lambda>i. CPhaseLayer_init n (int i mod 2) use_standard) [0..<nat d]"
  using assms by (auto simp: QPGA_init_def)

lemma QPGA_init_ready:
  assumes "QPGA_init draws n d c_in c_out use_standard = Some q" "1 \<le> n"
  shows "qpga_ready K q"
  using assms(2)
  by (simp add: qpga_ready_def QPGA_init_fields [OF assms(1)] list_all_iff sq_ready_init cp_ready_init)

lemma QPGA_init_matrices:
  assumes "QPGA_init draws n d c_in c_out use_standard = Some q"
  shows "circuit_matrices K q = spec_layer_matrices K draws (nat n) (nat d) use_standard"
  by (simp add: circuit_matrices_def QPGA_init_fields [OF assms] zip_map_upt pair_matrices_def
      spec_layer_matrices_def sq_matrix_init cp_matrix_init comp_def)

lemma length_concat_pairs: "length (concat (map (\<lambda>i. [f i, g i]) xs)) = 2 * length xs"
  by (induction xs) simp_all

lemma length_spec_layer_matrices:
  "length (spec_layer_matrices K draws n d use_standard) = 2 * d + 1"
  by (simp add: spec_layer_matrices_def length_concat_pairs)

lemma spec_layer_matrices_depth_0:
  "spec_layer_matrices K draws n 0 use_standard = [spec_layer_matrix K (draws 0) n]"
  by (simp add: spec_layer_matrices_def)

lemma built_pairs_zip:
  "built_pairs K (zip cs ss) = zip (map (built_cphase K) cs) (map (built_single_qubit K) ss)"
  by (simp add: built_pairs_def zip_map_map split_def)

lemma built_circuit_fields:
  assumes "length (cphase_layers q) = length (single_qubit_layers q)"
  shows "cphase_layers (built_circuit K q) = map (built_cphase K) (cphase_layers q)"
    and "single_qubit_layers (built_circuit K q) = map (built_single_qubit K) (single_qubit_layers q)"
    and "input_layer (built_circuit K q) = built_single_qubit K (input_layer q)"
    and "num_qubits (built_circuit K q) = num_qubits q"
    and "complex_inputs (built_circuit K q) = complex_inputs q"
    and "complex_outputs (built_circuit K q) = complex_outputs q"
  using assms
  by (simp_all add: built_circuit_def store_layers_def built_pairs_zip)

lemma built_circuit_idem:
  assumes "length (cphase_layers q) = length (single_qubit_layers q)"
  shows "built_circuit K (built_circuit K q) = built_circuit K q"
  using assms
  by (simp add: built_circuit_def store_layers_def built_pairs_zip comp_def)

lemma qpga_ready_built:
  assumes "qpga_ready K q" "length (cphase_layers q) = length (single_qubit_layers q)"
  shows "qpga_ready K (built_circuit K q)"
  using assms(1)
  by (simp add: qpga_ready_def built_circuit_fields [OF assms(2)] list_all_iff
      sq_ready_built cp_ready_built)

lemma circuit_matrices_built:
  assumes "length (cphase_layers q) = length (single_qubit_layers q)"
  shows "circuit_matrices K (built_circuit K q) = circuit_matrices K q"
  by (simp add: circuit_matrices_def built_circuit_fields [OF assms] pair_matrices_def
      zip_map_map comp_def split_def)

lemma QPGA_call_built:
  assumes r: "qpga_ready K q" and ok: "constants_ok K"
    and l: "length (cphase_layers q) = length (single_qubit_layers q)"
    and conv: "(if \<not> complex_inputs q then k_to_tf_complex inputs else Some inputs) = Some (Cplx x)"
    and x: "ctensor_ok x" and w: "width x = 2 ^ nat (num_qubits q)"
  shows "QPGA_call K (built_circuit K q) inputs = QPGA_call K q inputs"
proof -
  note f = built_circuit_fields [OF l, of K]
  have conv': "(if \<not> complex_inputs (built_circuit K q) then k_to_tf_complex inputs else Some inputs)
      = Some (Cplx x)"
    using conv by (simp add: f)
  have w': "width x = 2 ^ nat (num_qubits (built_circuit K q))" using w by (simp add: f)
  from QPGA_call_ready [OF qpga_ready_built [OF r l] ok conv' x w']
    QPGA_call_ready [OF r ok conv x w]
  show ?thesis
    by (simp add: f circuit_matrices_built [OF l] built_circuit_idem [OF l])
qed

lemma QPGA_init_lengths:
  assumes "QPGA_init draws n d c_in c_out use_standard = Some q"
  shows "length (cphase_layers q) = length (single_qubit_layers q)"
  by (simp add: QPGA_init_fields [OF assms])

text \<open>
  C1: a circuit constructed with \<open>(num_qubits, depth, complex_inputs, complex_outputs,
  use_standard_cphase)\<close>, \<open>num_qubits \<ge> 1\<close> and \<open>depth \<ge> 0\<close>, applied to a batch whose complex
  form \<open>x\<close> (the input itself, or its conversion from the paired encoding when
  \<open>complex_inputs\<close> is false) has width \<open>2\<^sup>n\<close>, returns \<open>x\<close> times the product of the
  \<open>2 \<cdot> depth + 1\<close> transfer matrices: the initial Single-Qubit Layer, then for
  \<open>i = 0..depth-1\<close> the Entangling Layer of parity \<open>i mod 2\<close> and a Single-Qubit Layer. The
  product is the same as multiplying by the matrices one after the other. The result is
  converted to the paired encoding when \<open>complex_outputs\<close> is false. With depth 0 the only
  matrix is that of the initial Single-Qubit Layer. The call leaves every layer built, and a
  further call on the circuit returns the same.
\<close>

theorem C1_forward_map:
  assumes "1 \<le> n" and "0 \<le> d"
    and "QPGA_init draws n d c_in c_out use_standard = Some q"
    and "constants_ok K"
    and "(if \<not> c_in then k_to_tf_complex inputs else Some inputs) = Some (Cplx x)"
    and "ctensor_ok x" and "width x = 2 ^ nat n"
  shows "QPGA_call K q inputs
           = map_option (\<lambda>y. (y, built_circuit K q))
               (spec_output c_out (2 ^ nat n) (rows x)
                 (spec_layer_matrices K draws (nat n) (nat d) use_standard))
       \<and> QPGA_call K q inputs \<noteq> None
       \<and> QPGA_call K (built_circuit K q) inputs = QPGA_call K q inputs
       \<and> mat_mul (rows x)
             (mat_product (2 ^ nat n) (spec_layer_matrices K draws (nat n) (nat d) use_standard))
           = foldl mat_mul (rows x) (spec_layer_matrices K draws (nat n) (nat d) use_standard)
       \<and> int (length (spec_layer_matrices K draws (nat n) (nat d) use_standard)) = 2 * d + 1
       \<and> spec_layer_matrices K draws (nat n) 0 use_standard
           = [spec_layer_matrix K (draws 0) (nat n)]"
proof -
  note f = QPGA_init_fields [OF assms(3)]
  have r: "qpga_ready K q" by (rule QPGA_init_ready [OF assms(3) assms(1)])
  have conv: "(if \<not> complex_inputs q then k_to_tf_complex inputs else Some inputs) = Some (Cplx x)"
    using assms(5) by (simp add: f)
  have w: "width x = 2 ^ nat (num_qubits q)" using assms(7) by (simp add: f)
  have call: "QPGA_call K q inputs
      = map_option (\<lambda>y. (y, built_circuit K q))
          (spec_output c_out (2 ^ nat n) (rows x)
            (spec_layer_matrices K draws (nat n) (nat d) use_standard))"
    using QPGA_call_ready [OF r assms(4) conv assms(6) w]
    by (simp add: f QPGA_init_matrices [OF assms(3)])
  have some: "spec_output c_out (2 ^ nat n) (rows x)
      (spec_layer_matrices K draws (nat n) (nat d) use_standard) \<noteq> None"
    by (simp add: spec_output_def Let_def)
  have rows_ok: "list_all (\<lambda>r. length r = 2 ^ nat n) (rows x)"
    using assms(6,7) by (simp add: ctensor_ok_def)
  have mats: "list_all (is_mat (2 ^ nat n) (2 ^ nat n))
      (spec_layer_matrices K draws (nat n) (nat d) use_standard)"
    using is_mat_circuit_matrices [OF r assms(4)]
    by (simp add: f QPGA_init_matrices [OF assms(3)])
  have prod: "mat_mul (rows x)
        (mat_product (2 ^ nat n) (spec_layer_matrices K draws (nat n) (nat d) use_standard))
      = foldl mat_mul (rows x) (spec_layer_matrices K draws (nat n) (nat d) use_standard)"
    using foldl_mat_product [OF mats rows_ok] by simp
  have len: "int (length (spec_layer_matrices K draws (nat n) (nat d) use_standard)) = 2 * d + 1"
    using assms(2) by (simp add: length_spec_layer_matrices)
  have again: "QPGA_call K (built_circuit K q) inputs = QPGA_call K q inputs"
    by (rule QPGA_call_built [OF r assms(4) QPGA_init_lengths [OF assms(3)] conv assms(6) w])
  show ?thesis
    using call some prod len unfolding again by (simp add: spec_layer_matrices_depth_0)
qed

theorem C1_forward_map_witness:
  "(1::int) \<le> 2 \<and> (0::int) \<le> 1
   \<and> QPGA_init (\<lambda>l w k. 0) 2 1 False False True
       = Some (the (QPGA_init (\<lambda>l w k. 0) 2 1 False False True))
   \<and> constants_ok example_constants
   \<and> k_to_tf_complex (Paired \<lparr>rwidth = 4, rrows = [([1, 0, 0, 0], [0, 0, 0, 0])]\<rparr>)
       = Some (Cplx \<lparr>width = 4, rows = [[Complex 1 0, Complex 0 0, Complex 0 0, Complex 0 0]]\<rparr>)
   \<and> ctensor_ok \<lparr>width = 4, rows = [[Complex 1 0, Complex 0 0, Complex 0 0, Complex 0 0]]\<rparr>
   \<and> QPGA_call example_constants (the (QPGA_init (\<lambda>l w k. 0) 2 1 False False True))
         (Paired \<lparr>rwidth = 4, rrows = [([1, 0, 0, 0], [0, 0, 0, 0])]\<rparr>)
       = map_option (\<lambda>y. (y, built_circuit example_constants
                               (the (QPGA_init (\<lambda>l w k. 0) 2 1 False False True))))
           (spec_output False 4 [[Complex 1 0, Complex 0 0, Complex 0 0, Complex 0 0]]
             (spec_layer_matrices example_constants (\<lambda>l w k. 0) 2 1 True))
   \<and> length (spec_layer_matrices example_constants (\<lambda>l w k. 0) 2 1 True) = 3"
proof -
  have i: "QPGA_init (\<lambda>l w k. 0) 2 1 False False True
      = Some (the (QPGA_init (\<lambda>l w k. 0) 2 1 False False True))"
    by (simp add: QPGA_init_def)
  have c: "(if \<not> False
      then k_to_tf_complex (Paired \<lparr>rwidth = 4, rrows = [([1, 0, 0, 0], [0, 0, 0, 0])]\<rparr>)
      else Some (Paired \<lparr>rwidth = 4, rrows = [([1, 0, 0, 0], [0, 0, 0, 0])]\<rparr>))
      = Some (Cplx \<lparr>width = 4, rows = [[Complex 1 0, Complex 0 0, Complex 0 0, Complex 0 0]]\<rparr>)"
    by simp
  have x: "ctensor_ok \<lparr>width = 4, rows = [[Complex 1 0, Complex 0 0, Complex 0 0, Complex 0 0]]\<rparr>"
    by (simp add: ctensor_ok_def)
  have w: "width \<lparr>width = 4, rows = [[Complex 1 0, Complex 0 0, Complex 0 0, Complex 0 0]]\<rparr>
      = 2 ^ nat 2"
    by simp
  from C1_forward_map [OF _ _ i example_constants_ok c x w] i x example_constants_ok
  show ?thesis by simp
qed

section \<open>Unitarity and norms\<close>

lemma constants_unitary_ok: "constants_unitary K \<Longrightarrow> constants_ok K"
  by (simp add: constants_unitary_def constants_ok_def unitary_is_mat)

lemma unitary_cp_matrix:
  assumes "cp_ready K n L" "1 \<le> n" "constants_unitary K"
  shows "unitary (2 ^ nat n) (cp_matrix K L)"
proof -
  have "1 \<le> nat n" using assms(2) by simp
  from unitary_entangling [OF assms(3) this] assms(1) show ?thesis
    by (simp add: cp_matrix_def spec_entangling_matrix_def cp_ready_def)
qed

lemma unitary_pair_matrices:
  assumes "list_all (\<lambda>l. cp_ready K n (fst l) \<and> sq_ready K n (snd l)) ls"
    and n: "1 \<le> n" and u: "constants_unitary K"
  shows "list_all (unitary (2 ^ nat n)) (pair_matrices K ls)"
  using assms(1)
proof (induction ls)
  case Nil
  then show ?case by (simp add: pair_matrices_def)
next
  case (Cons l ls)
  have bs: "unitary 2 (BS_MATRIX K)" using u by (simp add: constants_unitary_def)
  have pos: "0 < nat n" using n by simp
  from Cons.prems have c: "cp_ready K n (fst l)" and s: "sq_ready K n (snd l)" by simp_all
  have "unitary (2 ^ nat n) (sq_matrix K (snd l))"
    using unitary_layer_matrix [OF pos bs, of "sq_draws (snd l)"] s
    by (simp add: sq_matrix_def sq_ready_def)
  with unitary_cp_matrix [OF c n u] Cons show ?case by (simp add: pair_matrices_Cons)
qed

lemma unitary_circuit_matrices:
  assumes "qpga_ready K q" "constants_unitary K"
  shows "list_all (unitary (2 ^ nat (num_qubits q))) (circuit_matrices K q)"
proof -
  let ?n = "num_qubits q"
  have n: "1 \<le> ?n" and il: "sq_ready K ?n (input_layer q)"
    and z: "list_all (\<lambda>l. cp_ready K ?n (fst l) \<and> sq_ready K ?n (snd l))
        (zip (cphase_layers q) (single_qubit_layers q))"
    using assms(1) by (simp_all add: qpga_ready_def zip_ready)
  have bs: "unitary 2 (BS_MATRIX K)" using assms(2) by (simp add: constants_unitary_def)
  have pos: "0 < nat ?n" using n by simp
  have "unitary (2 ^ nat ?n) (sq_matrix K (input_layer q))"
    using unitary_layer_matrix [OF pos bs, of "sq_draws (input_layer q)"] il
    by (simp add: sq_matrix_def sq_ready_def)
  with unitary_pair_matrices [OF z n assms(2)] show ?thesis by (simp add: circuit_matrices_def)
qed

lemma vnorm_mat_mul:
  assumes "unitary d U" "list_all (\<lambda>r. length r = d) X"
  shows "map vnorm (mat_mul X U) = map vnorm X"
  using assms
  by (simp add: mat_mul_def list_all_iff vnorm_def vec_mat_norm_sq)

lemma norm_sq_paired:
  "length re = length im \<Longrightarrow>
   norm_sq (map2 Complex re im) = sum_list (map (\<lambda>a. a\<^sup>2) re) + sum_list (map (\<lambda>b. b\<^sup>2) im)"
proof (induction re im rule: list_induct2)
  case Nil
  then show ?case by (simp add: norm_sq_def)
next
  case (Cons a re b im)
  then show ?case by (simp add: norm_sq_def cmod_power2)
qed

lemma norm_sq_Re_Im:
  "norm_sq v = sum_list (map (\<lambda>a. a\<^sup>2) (map Re v)) + sum_list (map (\<lambda>b. b\<^sup>2) (map Im v))"
  by (induction v) (simp_all add: norm_sq_def cmod_power2)

lemma tensor_norms_k_to_tf:
  "tensor_ok t \<Longrightarrow> k_to_tf_complex t = Some y \<Longrightarrow> tensor_norms y = tensor_norms t"
  by (cases t) (auto simp: rtensor_ok_def list_all_iff vnorm_def norm_sq_paired)

lemma tensor_norms_tf_to_k:
  "tf_to_k_complex t = Some y \<Longrightarrow> tensor_norms y = tensor_norms t"
  by (cases t) (auto simp: vnorm_def norm_sq_Re_Im comp_def)

lemma ctensor_ok_k_to_tf:
  "tensor_ok t \<Longrightarrow> k_to_tf_complex t = Some (Cplx x) \<Longrightarrow> ctensor_ok x"
  by (cases t) (fastforce simp: rtensor_ok_def ctensor_ok_def list_all_iff)+

text \<open>
  C8: for a constructed circuit on \<open>n \<ge> 1\<close> qubits, of any depth and with any real initial
  weights, and gate constants that are unitary, every transfer matrix of the circuit and
  their product are unitary, and the forward map returns, for every state of a well-formed
  batch, a state of the same norm; a state of norm 1 is mapped to a state of norm 1. This
  holds in both encodings of the input and of the output.
\<close>

theorem C8_norm_preserved:
  assumes "1 \<le> n"
    and "QPGA_init draws n d c_in c_out use_standard = Some q"
    and "constants_unitary K"
    and "tensor_ok inputs"
    and "(if \<not> c_in then k_to_tf_complex inputs else Some inputs) = Some (Cplx x)"
    and "width x = 2 ^ nat n"
  shows "map_option (\<lambda>r. tensor_norms (fst r)) (QPGA_call K q inputs) = Some (tensor_norms inputs)
       \<and> list_all (unitary (2 ^ nat n)) (spec_layer_matrices K draws (nat n) (nat d) use_standard)
       \<and> unitary (2 ^ nat n)
           (mat_product (2 ^ nat n) (spec_layer_matrices K draws (nat n) (nat d) use_standard))"
proof -
  let ?d = "2 ^ nat n :: nat"
  let ?Ms = "spec_layer_matrices K draws (nat n) (nat d) use_standard"
  note f = QPGA_init_fields [OF assms(2)]
  have ok: "constants_ok K" by (rule constants_unitary_ok [OF assms(3)])
  have r: "qpga_ready K q" by (rule QPGA_init_ready [OF assms(2) assms(1)])
  have conv: "(if \<not> complex_inputs q then k_to_tf_complex inputs else Some inputs) = Some (Cplx x)"
    using assms(5) by (simp add: f)
  have w: "width x = 2 ^ nat (num_qubits q)" using assms(6) by (simp add: f)
  have x: "ctensor_ok x"
    using assms(4,5) ctensor_ok_k_to_tf [of inputs x] by (cases c_in) auto
  have nx: "tensor_norms (Cplx x) = tensor_norms inputs"
    using assms(4,5) tensor_norms_k_to_tf [of inputs "Cplx x"] by (cases c_in) auto
  have call: "QPGA_call K q inputs
      = map_option (\<lambda>y. (y, built_circuit K q)) (spec_output c_out ?d (rows x) ?Ms)"
    using QPGA_call_ready [OF r ok conv x w]
    by (simp add: f QPGA_init_matrices [OF assms(2)])
  have us: "list_all (unitary ?d) ?Ms"
    using unitary_circuit_matrices [OF r assms(3)]
    by (simp add: f QPGA_init_matrices [OF assms(2)])
  have u: "unitary ?d (mat_product ?d ?Ms)" by (rule unitary_mat_product [OF us]) simp
  have rows_ok: "list_all (\<lambda>r. length r = ?d) (rows x)"
    using x assms(6) by (simp add: ctensor_ok_def)
  let ?y = "Cplx \<lparr>width = ?d, rows = mat_mul (rows x) (mat_product ?d ?Ms)\<rparr>"
  have ny: "tensor_norms ?y = tensor_norms inputs"
    using vnorm_mat_mul [OF u rows_ok] nx by simp
  have "map_option tensor_norms (spec_output c_out ?d (rows x) ?Ms) = Some (tensor_norms inputs)"
  proof (cases c_out)
    case True
    then show ?thesis using ny by (simp add: spec_output_def Let_def)
  next
    case False
    obtain z where z: "tf_to_k_complex ?y = Some z" by simp
    from tensor_norms_tf_to_k [OF z] ny False z show ?thesis
      by (simp add: spec_output_def Let_def del: tf_to_k_complex.simps tensor_norms.simps)
  qed
  then have "map_option (\<lambda>r. tensor_norms (fst r)) (QPGA_call K q inputs) = Some (tensor_norms inputs)"
    unfolding call by (simp add: option.map_comp comp_def)
  with us u show ?thesis by simp
qed

theorem C8_norm_preserved_witness:
  "(1::int) \<le> 2
   \<and> QPGA_init (\<lambda>l w k. 0) 2 1 False False True
       = Some (the (QPGA_init (\<lambda>l w k. 0) 2 1 False False True))
   \<and> constants_unitary example_constants
   \<and> tensor_ok (Paired \<lparr>rwidth = 4, rrows = [([1, 0, 0, 0], [0, 0, 0, 0])]\<rparr>)
   \<and> k_to_tf_complex (Paired \<lparr>rwidth = 4, rrows = [([1, 0, 0, 0], [0, 0, 0, 0])]\<rparr>)
       = Some (Cplx \<lparr>width = 4, rows = [[Complex 1 0, Complex 0 0, Complex 0 0, Complex 0 0]]\<rparr>)
   \<and> map_option (\<lambda>r. tensor_norms (fst r))
         (QPGA_call example_constants (the (QPGA_init (\<lambda>l w k. 0) 2 1 False False True))
           (Paired \<lparr>rwidth = 4, rrows = [([1, 0, 0, 0], [0, 0, 0, 0])]\<rparr>))
       = Some [1]"
proof -
  have i: "QPGA_init (\<lambda>l w k. 0) 2 1 False False True
      = Some (the (QPGA_init (\<lambda>l w k. 0) 2 1 False False True))"
    by (simp add: QPGA_init_def)
  have t: "tensor_ok (Paired \<lparr>rwidth = 4, rrows = [([1, 0, 0, 0], [0, 0, 0, 0])]\<rparr>)"
    by (simp add: rtensor_ok_def)
  have c: "(if \<not> False
      then k_to_tf_complex (Paired \<lparr>rwidth = 4, rrows = [([1, 0, 0, 0], [0, 0, 0, 0])]\<rparr>)
      else Some (Paired \<lparr>rwidth = 4, rrows = [([1, 0, 0, 0], [0, 0, 0, 0])]\<rparr>))
      = Some (Cplx \<lparr>width = 4, rows = [[Complex 1 0, Complex 0 0, Complex 0 0, Complex 0 0]]\<rparr>)"
    by simp
  have w: "width \<lparr>width = 4, rows = [[Complex 1 0, Complex 0 0, Complex 0 0, Complex 0 0]]\<rparr>
      = 2 ^ nat 2"
    by simp
  from C8_norm_preserved [OF _ i example_constants_unitary t c w] i t example_constants_unitary
  show ?thesis by simp
qed

section \<open>The constructor\<close>

lemma py_pow2_neg_not_nat:
  assumes "n < 0"
  shows "(of_nat k :: rat) \<noteq> py_pow2 n"
proof -
  have p: "(2::rat) ^ nat (- n) > 1" using assms by (simp add: one_less_power)
  have "py_pow2 n = 1 / 2 ^ nat (- n)" using assms by (simp add: py_pow2_def)
  then have "0 < py_pow2 n" "py_pow2 n < 1" using p by simp_all
  then show ?thesis by (cases k) auto
qed

lemma SingleQubit_build_nonpositive:
  assumes "n \<le> 0"
  shows "SingleQubit_build K (SingleQubitOperationLayer_init draws n) k = None"
proof (cases "n < 0")
  case True
  from py_pow2_neg_not_nat [OF True, of k] show ?thesis
    by (simp add: SingleQubit_build_def SingleQubitOperationLayer_init_def)
next
  case False
  with assms have n: "n = 0" by simp
  show ?thesis
    by (simp add: SingleQubit_build_def SingleQubitOperationLayer_init_def n add_weight_def
        phase_shifts_to_tensor_product_space_def phase_complex_def)
qed

lemma SingleQubit_apply_nonpositive:
  "n \<le> 0 \<Longrightarrow> SingleQubit_apply K (SingleQubitOperationLayer_init draws n) x = None"
  by (simp add: SingleQubit_apply_def SingleQubit_build_nonpositive)
     (simp add: SingleQubitOperationLayer_init_def)

lemma QPGA_call_nonpositive:
  assumes "QPGA_init draws n d c_in c_out use_standard = Some q" "n \<le> 0"
  shows "QPGA_call K q inputs = None"
proof -
  note f = QPGA_init_fields [OF assms(1)]
  show ?thesis
    unfolding QPGA_call_def
    by (cases "if \<not> complex_inputs q then k_to_tf_complex inputs else Some inputs")
       (simp_all add: f SingleQubit_apply_nonpositive [OF assms(2)])
qed

text \<open>
  C6, as the specification states it, fails: \<^verbatim>\<open>QPGA.__init__\<close> checks none of its
  arguments. With zero qubits and depth \<open>-1\<close>, and with \<open>-3\<close> qubits and depth 2, it returns
  a circuit.
\<close>

theorem C6_rejected_counterexample:
  "map_option (\<lambda>q. (num_qubits q, depth q, length (cphase_layers q), length (single_qubit_layers q)))
     (QPGA_init (\<lambda>l w k. 0) 0 (- 1) False False True) = Some (0, - 1, 0, 0)
   \<and> map_option (\<lambda>q. (num_qubits q, depth q, length (cphase_layers q), length (single_qubit_layers q)))
     (QPGA_init (\<lambda>l w k. 0) (- 3) 2 False False True) = Some (- 3, 2, 2, 2)"
  by (simp add: QPGA_init_def)

text \<open>
  C6, amended: the constructor rejects nothing. For every \<open>num_qubits\<close> and every \<open>depth\<close>,
  also \<open>depth < 0\<close> and \<open>num_qubits \<le> 0\<close>, it returns a circuit that stores the arguments
  and holds one initial Single-Qubit Layer and \<open>max(depth, 0)\<close> pairs of layers. A circuit
  with \<open>num_qubits \<le> 0\<close> fails later: its first forward call raises on every input.
\<close>

theorem C6_constructor_never_rejects:
  "QPGA_init draws n d c_in c_out use_standard \<noteq> None
   \<and> map_option (\<lambda>q. (num_qubits q, depth q, length (cphase_layers q), length (single_qubit_layers q)))
       (QPGA_init draws n d c_in c_out use_standard) = Some (n, d, nat d, nat d)
   \<and> (n \<le> 0 \<longrightarrow> QPGA_call K (the (QPGA_init draws n d c_in c_out use_standard)) inputs = None)"
proof -
  have i: "QPGA_init draws n d c_in c_out use_standard
      = Some (the (QPGA_init draws n d c_in c_out use_standard))"
    by (simp add: QPGA_init_def)
  from QPGA_call_nonpositive [OF i] show ?thesis by (simp add: QPGA_init_def)
qed

theorem C6_constructor_never_rejects_witness:
  "(0::int) \<le> 0
   \<and> QPGA_init (\<lambda>l w k. 0) 0 (- 1) False False True \<noteq> None
   \<and> QPGA_call example_constants (the (QPGA_init (\<lambda>l w k. 0) 0 (- 1) False False True))
       (Paired \<lparr>rwidth = 1, rrows = [([1], [0])]\<rparr>) = None"
  using C6_constructor_never_rejects [of "\<lambda>l w k. 0" 0 "- 1" False False True example_constants
      "Paired \<lparr>rwidth = 1, rrows = [([1], [0])]\<rparr>"]
  by simp

section \<open>The sequential view\<close>

lemma Sequential_call_append:
  "Sequential_call K (a @ b) s = Sequential_call K a s \<bind> Sequential_call K b"
proof (induction a arbitrary: s)
  case Nil
  then show ?case by simp
next
  case (Cons st a)
  then show ?case by (cases "run_stage K st s") simp_all
qed

lemma length_call_loop:
  "call_loop K ls x = Some (y, ls') \<Longrightarrow> length ls' = length ls"
proof (induction ls arbitrary: x y ls')
  case Nil
  then show ?case by simp
next
  case (Cons l ls)
  obtain c s where l: "l = (c, s)" by (cases l)
  from Cons.prems show ?case
    unfolding l
    by (auto simp: bind_eq_Some_conv dest: Cons.IH)
qed


lemma loop_stages_step: "k < m \<Longrightarrow>
   loop_stages k m = The_cphase_layer k # The_single_qubit_layer k # loop_stages (Suc k) m"
  by (simp add: loop_stages_def upt_conv_Cons)

lemma loop_stages_done: "loop_stages m m = []"
  by (simp add: loop_stages_def)

lemma loop_stages_run:
  assumes "k \<le> length (cphase_layers q)" "k \<le> length (single_qubit_layers q)"
    and "m = min (length (cphase_layers q)) (length (single_qubit_layers q))"
  shows "Sequential_call K (loop_stages k m) (x, q)
         = map_option (\<lambda>(y, ls).
             (y, q\<lparr>cphase_layers := take k (cphase_layers q) @ map fst ls
                      @ drop (k + length ls) (cphase_layers q),
                    single_qubit_layers := take k (single_qubit_layers q) @ map snd ls
                      @ drop (k + length ls) (single_qubit_layers q)\<rparr>))
             (call_loop K (zip (drop k (cphase_layers q)) (drop k (single_qubit_layers q))) x)"
  using assms
proof (induction "m - k" arbitrary: k x q)
  case 0
  then have km: "k = m" by simp
  then have "drop k (cphase_layers q) = [] \<or> drop k (single_qubit_layers q) = []"
    using "0.prems" by (auto simp: min_def split: if_splits)
  then have z: "zip (drop k (cphase_layers q)) (drop k (single_qubit_layers q)) = []" by auto
  show ?case unfolding z by (simp add: km loop_stages_done)
next
  case (Suc d)
  let ?cs = "cphase_layers q" and ?ss = "single_qubit_layers q"
  from Suc.hyps(2) Suc.prems have k: "k < m" "k < length ?cs" "k < length ?ss" by auto
  have z: "zip (drop k ?cs) (drop k ?ss)
      = (?cs ! k, ?ss ! k) # zip (drop (Suc k) ?cs) (drop (Suc k) ?ss)"
    using k by (simp add: Cons_nth_drop_Suc [symmetric])
  show ?case
  proof (cases "CPhase_apply K (?cs ! k) x")
    case None
    then show ?thesis using k by (simp add: z loop_stages_step)
  next
    case (Some r)
    obtain y c' where r: "r = (y, c')" by (cases r)
    show ?thesis
    proof (cases "SingleQubit_apply K (?ss ! k) y")
      case None
      then show ?thesis using k Some r by (simp add: z loop_stages_step)
    next
      case (Some r')
      obtain y' s' where r': "r' = (y', s')" by (cases r')
      let ?q = "q\<lparr>cphase_layers := ?cs[k := c'], single_qubit_layers := ?ss[k := s']\<rparr>"
      have d: "d = m - Suc k" using Suc.hyps(2) by simp
      have p: "Suc k \<le> length (cphase_layers ?q)" "Suc k \<le> length (single_qubit_layers ?q)"
        "m = min (length (cphase_layers ?q)) (length (single_qubit_layers ?q))"
        using k Suc.prems by simp_all
      note IH = Suc.hyps(1) [OF d p, of y']
      have t: "take (Suc k) (?cs[k := c']) = take k ?cs @ [c']"
        "take (Suc k) (?ss[k := s']) = take k ?ss @ [s']"
        using k by (simp_all add: take_Suc_conv_app_nth)
      show ?thesis
      proof (cases "call_loop K (zip (drop (Suc k) ?cs) (drop (Suc k) ?ss)) y'")
        case None
        with IH show ?thesis
          using k \<open>CPhase_apply K (?cs ! k) x = Some r\<close> r Some r'
          by (simp add: z loop_stages_step)
      next
        case (Some r'')
        obtain y'' ls where r'': "r'' = (y'', ls)" by (cases r'')
        with IH Some show ?thesis
          using k \<open>CPhase_apply K (?cs ! k) x = Some r\<close> r \<open>SingleQubit_apply K (?ss ! k) y = Some r'\<close> r'
          by (simp add: z loop_stages_step t)
      qed
    qed
  qed
qed

lemma as_sequential_stages:
  "as_sequential q =
     (if \<not> complex_inputs q
      then [Input [2, input_dim q] Float64, Lambda_k_to_tf_complex]
      else [Input [input_dim q] Complex128])
     @ The_input_layer
     # loop_stages 0 (min (length (cphase_layers q)) (length (single_qubit_layers q)))
     @ (if \<not> complex_outputs q then [Lambda_tf_to_k_complex] else [])"
  by (simp add: as_sequential_def loop_stages_def)

lemma body_stages_run:
  "Sequential_call K
     (The_input_layer
      # loop_stages 0 (min (length (cphase_layers q)) (length (single_qubit_layers q)))
      @ (if \<not> complex_outputs q then [Lambda_tf_to_k_complex] else [])) (x, q)
   = do {
       (x, il) \<leftarrow> SingleQubit_apply K (input_layer q) x;
       (x, ls) \<leftarrow> call_loop K (zip (cphase_layers q) (single_qubit_layers q)) x;
       x \<leftarrow> (if \<not> complex_outputs q then tf_to_k_complex x else Some x);
       Some (x, store_layers q il ls)
     }"
proof (cases "SingleQubit_apply K (input_layer q) x")
  case None
  then show ?thesis by simp
next
  case (Some r)
  obtain y il where r: "r = (y, il)" by (cases r)
  let ?q = "q\<lparr>input_layer := il\<rparr>"
  let ?m = "min (length (cphase_layers q)) (length (single_qubit_layers q))"
  have run: "Sequential_call K (loop_stages 0 ?m) (y, ?q)
      = map_option (\<lambda>(z, ls). (z, store_layers q il ls))
          (call_loop K (zip (cphase_layers q) (single_qubit_layers q)) y)"
    using loop_stages_run [of 0 ?q ?m K y]
    by (simp add: store_layers_def)
  show ?thesis
  proof (cases "call_loop K (zip (cphase_layers q) (single_qubit_layers q)) y")
    case None
    with Some r run show ?thesis by (simp add: Sequential_call_append)
  next
    case (Some r')
    obtain z ls where r': "r' = (z, ls)" by (cases r')
    show ?thesis
      using \<open>SingleQubit_apply K (input_layer q) x = Some r\<close> r Some r' run
      by (cases "tf_to_k_complex z") (simp_all add: Sequential_call_append)
  qed
qed

text \<open>
  C7: for every circuit and every input, running the pipeline that \<^verbatim>\<open>as_sequential\<close>
  returns, whose layer stages are the layer objects of the circuit, gives what
  \<^verbatim>\<open>QPGA.call\<close> gives: the same output and the same layers afterwards, or a failure
  where \<^verbatim>\<open>QPGA.call\<close> fails.
\<close>

theorem C7_as_sequential_agrees:
  "Sequential_call K (as_sequential q) (x, q) = QPGA_call K q x"
proof -
  let ?pre = "if \<not> complex_inputs q
      then [Input [2, input_dim q] Float64, Lambda_k_to_tf_complex]
      else [Input [input_dim q] Complex128]"
  let ?body = "The_input_layer
      # loop_stages 0 (min (length (cphase_layers q)) (length (single_qubit_layers q)))
      @ (if \<not> complex_outputs q then [Lambda_tf_to_k_complex] else [])"
  let ?conv = "if \<not> complex_inputs q then k_to_tf_complex x else Some x"
  have pre: "Sequential_call K ?pre (x, q) = map_option (\<lambda>y. (y, q)) ?conv"
    by (cases "k_to_tf_complex x") simp_all
  have "Sequential_call K (as_sequential q) (x, q)
      = Sequential_call K ?pre (x, q) \<bind> Sequential_call K ?body"
    by (simp only: as_sequential_stages Sequential_call_append)
  also have "\<dots> = ?conv \<bind> (\<lambda>y. Sequential_call K ?body (y, q))"
    unfolding pre by (cases ?conv) simp_all
  also have "\<dots> = QPGA_call K q x"
    unfolding QPGA_call_def by (simp only: body_stages_run)
  finally show ?thesis .
qed

theorem C7_as_sequential_agrees_witness:
  "Sequential_call example_constants
     (as_sequential (the (QPGA_init (\<lambda>l w k. 0) 2 1 False False True)))
     (Paired \<lparr>rwidth = 4, rrows = [([1, 0, 0, 0], [0, 0, 0, 0])]\<rparr>,
      the (QPGA_init (\<lambda>l w k. 0) 2 1 False False True))
   = QPGA_call example_constants (the (QPGA_init (\<lambda>l w k. 0) 2 1 False False True))
       (Paired \<lparr>rwidth = 4, rrows = [([1, 0, 0, 0], [0, 0, 0, 0])]\<rparr>)
   \<and> Sequential_call example_constants
     (as_sequential (the (QPGA_init (\<lambda>l w k. 0) 2 1 False False True)))
     (Paired \<lparr>rwidth = 4, rrows = [([1, 0, 0, 0], [0, 0, 0, 0])]\<rparr>,
      the (QPGA_init (\<lambda>l w k. 0) 2 1 False False True)) \<noteq> None"
proof -
  let ?q = "the (QPGA_init (\<lambda>l w k. 0) 2 1 False False True)"
  let ?x = "\<lparr>width = 4, rows = [[Complex 1 0, Complex 0 0, Complex 0 0, Complex 0 0]]\<rparr> :: ctensor"
  have i: "QPGA_init (\<lambda>l w k. 0) 2 1 False False True = Some ?q"
    by (simp add: QPGA_init_def)
  note f = QPGA_init_fields [OF i]
  have r: "qpga_ready example_constants ?q" by (rule QPGA_init_ready [OF i]) simp
  have c: "(if \<not> complex_inputs ?q
      then k_to_tf_complex (Paired \<lparr>rwidth = 4, rrows = [([1, 0, 0, 0], [0, 0, 0, 0])]\<rparr>)
      else Some (Paired \<lparr>rwidth = 4, rrows = [([1, 0, 0, 0], [0, 0, 0, 0])]\<rparr>)) = Some (Cplx ?x)"
    by (simp add: f)
  have x: "ctensor_ok ?x" by (simp add: ctensor_ok_def)
  have w: "width ?x = 2 ^ nat (num_qubits ?q)" by (simp add: f)
  have "QPGA_call example_constants ?q
      (Paired \<lparr>rwidth = 4, rrows = [([1, 0, 0, 0], [0, 0, 0, 0])]\<rparr>) \<noteq> None"
    unfolding QPGA_call_ready [OF r example_constants_ok c x w]
    by (simp add: spec_output_def Let_def)
  then show ?thesis
    by (simp only: C7_as_sequential_agrees simp_thms)
qed

section \<open>The antifidelity metric\<close>

lemma cs_step:
  fixes a b s T P :: real
  assumes "0 \<le> a" "0 \<le> b" "0 \<le> s" "0 \<le> T" "0 \<le> P" "s\<^sup>2 \<le> T * P"
  shows "(a * b + s)\<^sup>2 \<le> (a\<^sup>2 + T) * (b\<^sup>2 + P)"
proof -
  have "s \<le> sqrt (T * P)" using assms(6) by (rule real_le_rsqrt)
  then have s: "s \<le> sqrt T * sqrt P" by (simp add: real_sqrt_mult)
  have "2 * (a * sqrt P) * (b * sqrt T) \<le> (a * sqrt P)\<^sup>2 + (b * sqrt T)\<^sup>2"
    by (rule sum_squares_bound)
  then have m: "2 * (a * b) * (sqrt T * sqrt P) \<le> a\<^sup>2 * P + b\<^sup>2 * T"
    using assms(4,5) by (simp add: power_mult_distrib mult_ac)
  have "0 \<le> a * b" using assms(1,2) by simp
  then have "2 * (a * b) * s \<le> 2 * (a * b) * (sqrt T * sqrt P)"
    using s by (intro mult_left_mono) simp_all
  with m have "2 * (a * b) * s \<le> a\<^sup>2 * P + b\<^sup>2 * T" by simp
  moreover have "(a * b + s)\<^sup>2 = a\<^sup>2 * b\<^sup>2 + 2 * (a * b) * s + s\<^sup>2"
    by (simp add: power2_sum power_mult_distrib)
  moreover have "(a\<^sup>2 + T) * (b\<^sup>2 + P) = a\<^sup>2 * b\<^sup>2 + (a\<^sup>2 * P + b\<^sup>2 * T) + T * P"
    by (simp add: algebra_simps)
  ultimately show ?thesis using assms(6) by simp
qed

lemma norm_sq_nonneg: "0 \<le> norm_sq v"
  by (induction v) (simp_all add: norm_sq_def)

lemma norm_sq_Cons [simp]: "norm_sq (z # v) = (cmod z)\<^sup>2 + norm_sq v"
  by (simp add: norm_sq_def)

lemma cauchy_schwarz:
  "length t = length p \<Longrightarrow> (cmod (inner_prod t p))\<^sup>2 \<le> norm_sq t * norm_sq p"
proof (induction t p rule: list_induct2)
  case Nil
  then show ?case by (simp add: norm_sq_def)
next
  case (Cons a t b p)
  have "cmod (cnj a * b + inner_prod t p) \<le> cmod a * cmod b + cmod (inner_prod t p)"
    using norm_triangle_ineq [of "cnj a * b" "inner_prod t p"] by (simp add: norm_mult)
  then have "(cmod (cnj a * b + inner_prod t p))\<^sup>2 \<le> (cmod a * cmod b + cmod (inner_prod t p))\<^sup>2"
    by (intro power_mono) simp_all
  also have "\<dots> \<le> ((cmod a)\<^sup>2 + norm_sq t) * ((cmod b)\<^sup>2 + norm_sq p)"
    by (rule cs_step) (simp_all add: norm_sq_nonneg Cons.IH)
  finally show ?case by simp
qed

lemma vnorm_one_iff: "vnorm v = 1 \<longleftrightarrow> norm_sq v = 1"
  by (simp add: vnorm_def)

lemma antifidelity_Paired:
  assumes "rwidth t = rwidth p" "length (rrows t) = length (rrows p)"
  shows "antifidelity (Paired t) (Paired p)
         = Some (map2 (\<lambda>a b. 1 - (cmod (inner_prod (row_complex a) (row_complex b)))\<^sup>2)
             (rrows t) (rrows p))"
  using assms
  by (simp add: antifidelity_def Let_def row_complex_def zip_map_map map_zip_map map_zip_map2
      comp_def split_def)

lemma length_row_complex:
  "length (fst r) = w \<Longrightarrow> length (snd r) = w \<Longrightarrow> length (row_complex r) = w"
  by (simp add: row_complex_def)

lemma norm_sq_row_complex:
  "length (fst r) = length (snd r) \<Longrightarrow>
   norm_sq (row_complex r) = sum_list (map (\<lambda>a. a\<^sup>2) (fst r)) + sum_list (map (\<lambda>b. b\<^sup>2) (snd r))"
  by (simp add: row_complex_def norm_sq_paired)

lemma normalized_row:
  assumes "rtensor_ok t" "normalized (Paired t)" "r \<in> set (rrows t)"
  shows "norm_sq (row_complex r) = 1"
proof -
  from assms(1,3) have l: "length (fst r) = length (snd r)"
    by (simp add: rtensor_ok_def list_all_iff)
  from assms(2,3)
  have "sqrt (sum_list (map (\<lambda>a. a\<^sup>2) (fst r)) + sum_list (map (\<lambda>b. b\<^sup>2) (snd r))) = 1"
    by (simp add: normalized_def list_all_iff)
  then show ?thesis by (simp add: norm_sq_row_complex [OF l])
qed

lemma self_row:
  assumes "norm_sq v = 1"
  shows "1 - (cmod (inner_prod v v))\<^sup>2 = 0"
  by (simp add: inner_prod_self assms)

lemma range_row:
  assumes "length a = length b" "norm_sq a = 1" "norm_sq b = 1"
  shows "0 \<le> 1 - (cmod (inner_prod a b))\<^sup>2 \<and> 1 - (cmod (inner_prod a b))\<^sup>2 \<le> 1"
  using cauchy_schwarz [OF assms(1)] assms(2,3) by simp

lemma basis_row:
  "row_complex (map (\<lambda>k. if i = k then 1 else 0) [0..<d], replicate d 0) = identity_mat d ! i"
  if "i < d"
  using that
  by (intro nth_equalityI) (simp_all add: row_complex_def identity_mat_def complex_eq_iff)

lemma antifidelity_basis:
  assumes "i < d" "j < d"
  shows "antifidelity (basis_state d i) (basis_state d j) = Some [if i = j then 0 else 1]"
proof -
  have "antifidelity (basis_state d i) (basis_state d j)
      = Some [1 - (cmod (inner_prod (identity_mat d ! i) (identity_mat d ! j)))\<^sup>2]"
    unfolding basis_state_def
    by (subst antifidelity_Paired) (simp_all add: basis_row assms)
  then show ?thesis
    by (simp add: unitary_ip [OF unitary_identity assms])
qed

text \<open>
  C9: for two batches \<open>t\<close> (target) and \<open>p\<close> (predicted) of one shape in the real paired
  encoding, \<^verbatim>\<open>antifidelity\<close> returns for each row 1 minus the squared modulus of
  \<open>\<Sum> conj(t) \<cdot> p\<close>. Hence the antifidelity of a batch of normalized states against itself
  is 0 in every row, the result lies in \<open>[0, 1]\<close> when both batches are normalized, and the
  antifidelity of two different basis states is 1.
\<close>

theorem C9_antifidelity:
  assumes "rtensor_ok t" and "rtensor_ok p" and "rwidth t = rwidth p"
    and "length (rrows t) = length (rrows p)"
  shows "antifidelity (Paired t) (Paired p)
           = Some (map2 (\<lambda>a b. 1 - (cmod (inner_prod (row_complex a) (row_complex b)))\<^sup>2)
               (rrows t) (rrows p))
       \<and> (normalized (Paired t) \<longrightarrow>
            antifidelity (Paired t) (Paired t) = Some (map (\<lambda>r. 0) (rrows t)))
       \<and> (normalized (Paired t) \<and> normalized (Paired p) \<longrightarrow>
            list_all (\<lambda>a. 0 \<le> a \<and> a \<le> 1)
              (map2 (\<lambda>a b. 1 - (cmod (inner_prod (row_complex a) (row_complex b)))\<^sup>2)
                (rrows t) (rrows p)))
       \<and> (i < d \<and> j < d \<and> i \<noteq> j \<longrightarrow>
            antifidelity (basis_state d i) (basis_state d j) = Some [1])"
proof (intro conjI impI)
  show "antifidelity (Paired t) (Paired p)
      = Some (map2 (\<lambda>a b. 1 - (cmod (inner_prod (row_complex a) (row_complex b)))\<^sup>2)
          (rrows t) (rrows p))"
    by (rule antifidelity_Paired [OF assms(3,4)])
next
  assume n: "normalized (Paired t)"
  have "map2 (\<lambda>a b. 1 - (cmod (inner_prod (row_complex a) (row_complex b)))\<^sup>2) (rrows t) (rrows t)
      = map (\<lambda>r. 0) (rrows t)"
    unfolding zip_same_conv_map
    by (simp add: self_row normalized_row [OF assms(1) n])
  then show "antifidelity (Paired t) (Paired t) = Some (map (\<lambda>r. 0) (rrows t))"
    by (simp add: antifidelity_Paired)
next
  assume n: "normalized (Paired t) \<and> normalized (Paired p)"
  show "list_all (\<lambda>a. 0 \<le> a \<and> a \<le> 1)
      (map2 (\<lambda>a b. 1 - (cmod (inner_prod (row_complex a) (row_complex b)))\<^sup>2) (rrows t) (rrows p))"
    unfolding list_all_iff
  proof
    fix v assume "v \<in> set (map2 (\<lambda>a b. 1 - (cmod (inner_prod (row_complex a) (row_complex b)))\<^sup>2)
        (rrows t) (rrows p))"
    then obtain a b where ab: "(a, b) \<in> set (zip (rrows t) (rrows p))"
      and v: "v = 1 - (cmod (inner_prod (row_complex a) (row_complex b)))\<^sup>2"
      by auto
    from ab have a: "a \<in> set (rrows t)" and b: "b \<in> set (rrows p)"
      by (auto dest: set_zip_leftD set_zip_rightD)
    have l: "length (row_complex a) = length (row_complex b)"
      using a b assms(1,2,3) by (simp add: rtensor_ok_def list_all_iff row_complex_def)
    from range_row [OF l normalized_row [OF assms(1) _ a] normalized_row [OF assms(2) _ b]] n
    show "0 \<le> v \<and> v \<le> 1" unfolding v by simp
  qed
next
  assume "i < d \<and> j < d \<and> i \<noteq> j"
  then show "antifidelity (basis_state d i) (basis_state d j) = Some [1]"
    by (simp add: antifidelity_basis)
qed

theorem C9_antifidelity_witness:
  "rtensor_ok \<lparr>rwidth = 2, rrows = [([1, 0], [0, 0])]\<rparr>
   \<and> rtensor_ok \<lparr>rwidth = 2, rrows = [([0, 0], [0, 1])]\<rparr>
   \<and> normalized (Paired \<lparr>rwidth = 2, rrows = [([1, 0], [0, 0])]\<rparr>)
   \<and> normalized (Paired \<lparr>rwidth = 2, rrows = [([0, 0], [0, 1])]\<rparr>)
   \<and> (0::nat) < 2 \<and> (1::nat) < 2 \<and> (0::nat) \<noteq> 1
   \<and> antifidelity (Paired \<lparr>rwidth = 2, rrows = [([1, 0], [0, 0])]\<rparr>)
        (Paired \<lparr>rwidth = 2, rrows = [([1, 0], [0, 0])]\<rparr>) = Some [0]
   \<and> list_all (\<lambda>a. 0 \<le> a \<and> a \<le> 1)
        (map2 (\<lambda>a b. 1 - (cmod (inner_prod (row_complex a) (row_complex b)))\<^sup>2)
          [([1, 0], [0, 0])] [([0, 0], [0, 1])])
   \<and> antifidelity (basis_state 2 0) (basis_state 2 1) = Some [1]"
proof -
  have t: "rtensor_ok \<lparr>rwidth = 2, rrows = [([1, 0], [0, 0])]\<rparr>"
    and p: "rtensor_ok \<lparr>rwidth = 2, rrows = [([0, 0], [0, 1])]\<rparr>"
    by (simp_all add: rtensor_ok_def)
  have n: "normalized (Paired \<lparr>rwidth = 2, rrows = [([1, 0], [0, 0])]\<rparr>)"
    "normalized (Paired \<lparr>rwidth = 2, rrows = [([0, 0], [0, 1])]\<rparr>)"
    by (simp_all add: normalized_def)
  from C9_antifidelity [OF t p, of 0 2 1] t p n show ?thesis by simp
qed

end
